theory Spec2Isabelle
  imports Main "HOL-Library.Word" "HOL-Library.Sublist"
begin

unbundle bit_operations_syntax

section \<open>Exceptions, bytes and files\<close>

text \<open>
  The harness \<^verbatim>\<open>pytest_advanced_ota.py\<close> is Python. An exception is a value of
  \<open>exn\<close>; a computation that may raise returns \<open>exn + 'a\<close> with \<open>Inl\<close> the raised
  exception. In Python 3 \<^verbatim>\<open>socket.error\<close> and \<^verbatim>\<open>IOError\<close> are both names of
  \<^verbatim>\<open>OSError\<close>, and \<^verbatim>\<open>FileNotFoundError\<close> is one of its subclasses; an
  \<^verbatim>\<open>except\<close> clause for either name catches exactly the exceptions accepted by
  \<open>isinstance_OSError\<close>.
\<close>

datatype exn =
    OSError
  | FileNotFoundError
  | IndexError
  | ValueError
  | RuntimeError
  | AttributeError
  | StructError
  | TIMEOUT
  | KeyboardInterrupt

fun isinstance_OSError :: "exn \<Rightarrow> bool" where
  "isinstance_OSError OSError = True"
| "isinstance_OSError FileNotFoundError = True"
| "isinstance_OSError _ = False"

definition bind :: "exn + 'a \<Rightarrow> ('a \<Rightarrow> exn + 'b) \<Rightarrow> exn + 'b" where
  "bind r f = (case r of Inl e \<Rightarrow> Inl e | Inr v \<Rightarrow> f v)"

type_synonym byte = "8 word"

text \<open>
  The serving directory \<^verbatim>\<open>dut.app.binary_path\<close> is a map from file names to
  contents. An open binary file is its contents and the position of the next read or
  write. Writing past the end after a seek fills the gap with zero bytes, as the
  operating system does.
\<close>

type_synonym directory = "string \<rightharpoonup> byte list"

record pyfile =
  content :: "byte list"
  pos :: nat

definition open_existing :: "directory \<Rightarrow> string \<Rightarrow> exn + pyfile" where
  \<comment> \<open>modes \<^verbatim>\<open>rb\<close>, \<^verbatim>\<open>rb+\<close> and \<^verbatim>\<open>r+b\<close>: the file must exist, position 0\<close>
  "open_existing fs name =
     (case fs name of
        None \<Rightarrow> Inl FileNotFoundError
      | Some d \<Rightarrow> Inr \<lparr>content = d, pos = 0\<rparr>)"

definition open_truncate :: pyfile where
  \<comment> \<open>mode \<^verbatim>\<open>wb+\<close>: the file is created, or emptied when it exists\<close>
  "open_truncate = \<lparr>content = [], pos = 0\<rparr>"

definition file_read :: "nat \<Rightarrow> pyfile \<Rightarrow> byte list \<times> pyfile" where
  "file_read n f =
     (let bs = take n (drop (pos f) (content f))
      in (bs, f\<lparr>pos := pos f + length bs\<rparr>))"

definition file_seek :: "nat \<Rightarrow> pyfile \<Rightarrow> pyfile" where
  "file_seek p f = f\<lparr>pos := p\<rparr>"

definition file_write :: "byte list \<Rightarrow> pyfile \<Rightarrow> pyfile" where
  "file_write bs f =
     (let c = content f @ replicate (pos f - length (content f)) 0
      in f\<lparr>content := take (pos f) c @ bs @ drop (pos f + length bs) c,
            pos := pos f + length bs\<rparr>)"

definition file_close :: "directory \<Rightarrow> string \<Rightarrow> pyfile \<Rightarrow> directory" where
  "file_close fs name f = fs(name \<mapsto> content f)"

text \<open>
  A \<^verbatim>\<open>bytearray\<close> holds integers 0..255. Reading or assigning an index outside it
  raises \<^verbatim>\<open>IndexError\<close>; assigning a value outside 0..255 raises
  \<^verbatim>\<open>ValueError\<close>.
\<close>

definition bytearray_get :: "byte list \<Rightarrow> nat \<Rightarrow> exn + int" where
  "bytearray_get h i = (if i < length h then Inr (uint (h ! i)) else Inl IndexError)"

definition bytearray_set :: "byte list \<Rightarrow> nat \<Rightarrow> int \<Rightarrow> exn + byte list" where
  "bytearray_set h i v =
     (if i < length h
      then (if 0 \<le> v \<and> v < 256 then Inr (h[i := word_of_int v]) else Inl ValueError)
      else Inl IndexError)"

section \<open>Revision-header edit: \<^verbatim>\<open>modify_chip_revision\<close>\<close>

definition HEADER_SIZE :: nat where
  "HEADER_SIZE = 512"

definition TARGET_OFFSET_MIN_REV :: nat where
  "TARGET_OFFSET_MIN_REV = 0x0F"

definition TARGET_OFFSET_MAX_REV :: nat where
  "TARGET_OFFSET_MAX_REV = 0x11"

definition except_IOError :: "exn + 'a \<Rightarrow> exn + 'a" where
  \<comment> \<open>\<^verbatim>\<open>except IOError as e: raise RuntimeError(...)\<close>\<close>
  "except_IOError r =
     (case r of
        Inl e \<Rightarrow> if isinstance_OSError e then Inl RuntimeError else Inl e
      | Inr v \<Rightarrow> Inr v)"

definition edit_min_rev :: "byte list \<Rightarrow> int option \<Rightarrow> bool \<Rightarrow> exn + byte list" where
  \<comment> \<open>the \<^verbatim>\<open>if increment_min: ... elif min_rev is not None: ...\<close> statement\<close>
  "edit_min_rev header min_rev increment_min =
     (if increment_min
      then bind (bytearray_get header TARGET_OFFSET_MIN_REV)
             (\<lambda>v. bytearray_set header TARGET_OFFSET_MIN_REV ((v + 1) AND 0xFF))
      else (case min_rev of
              Some m \<Rightarrow> bytearray_set header TARGET_OFFSET_MIN_REV (m AND 0xFF)
            | None \<Rightarrow> Inr header))"

definition edit_max_rev :: "byte list \<Rightarrow> int option \<Rightarrow> exn + byte list" where
  \<comment> \<open>the \<^verbatim>\<open>if max_rev is not None: ...\<close> statement\<close>
  "edit_max_rev header max_rev =
     (case max_rev of
        Some m \<Rightarrow> bytearray_set header TARGET_OFFSET_MAX_REV (m AND 0xFF)
      | None \<Rightarrow> Inr header)"

definition modify_chip_revision ::
  "directory \<Rightarrow> string \<Rightarrow> int option \<Rightarrow> int option \<Rightarrow> bool \<Rightarrow> exn + directory" where
  "modify_chip_revision fs app_path min_rev max_rev increment_min =
     (if fs app_path = None then Inl FileNotFoundError
      else except_IOError
        (bind (open_existing fs app_path) (\<lambda>f.
         let header = fst (file_read HEADER_SIZE f) in
         bind (edit_min_rev header min_rev increment_min) (\<lambda>header.
         bind (edit_max_rev header max_rev) (\<lambda>header.
         bind (open_existing fs app_path) (\<lambda>g.
         Inr (file_close fs app_path (file_write header g))))))))"

section \<open>Artifacts written by the scenarios\<close>

text \<open>
  Every scenario reads the built image \<^verbatim>\<open>advanced_https_ota.bin\<close> of the serving
  directory and writes its faulty variant under another name of the same directory.
  A file that was opened and only read is unchanged when it is closed.
\<close>

definition bin_name :: string where
  "bin_name = ''advanced_https_ota.bin''"

definition write_truncated :: "directory \<Rightarrow> string \<Rightarrow> nat \<Rightarrow> exn + directory" where
  \<comment> \<open>\<^verbatim>\<open>with open(binary_file, 'rb+') as f: with open(<truncated>, 'wb+') as output_file:
      output_file.write(f.read(truncated_bin_size))\<close>\<close>
  "write_truncated fs truncated_bin_name truncated_bin_size =
     bind (open_existing fs bin_name) (\<lambda>f.
       let output_file = open_truncate;
           output_file = file_write (fst (file_read truncated_bin_size f)) output_file
       in Inr (file_close fs truncated_bin_name output_file))"

definition truncated_bin_setup :: "directory \<Rightarrow> exn + directory" where
  \<comment> \<open>\<^verbatim>\<open>test_examples_protocol_advanced_https_ota_example_truncated_bin\<close>\<close>
  "truncated_bin_setup fs = write_truncated fs ''truncated.bin'' 64000"

definition truncated_header_setup :: "directory \<Rightarrow> exn + directory" where
  \<comment> \<open>\<^verbatim>\<open>test_examples_protocol_advanced_https_ota_example_truncated_header\<close>\<close>
  "truncated_header_setup fs = write_truncated fs ''truncated_header.bin'' 180"

definition list_assign :: "'a list \<Rightarrow> nat \<Rightarrow> 'a \<Rightarrow> exn + 'a list" where
  \<comment> \<open>\<^verbatim>\<open>data[i] = v\<close> on a Python list\<close>
  "list_assign xs i v = (if i < length xs then Inr (xs[i := v]) else Inl IndexError)"

definition invalid_chip_id_setup :: "directory \<Rightarrow> exn + directory" where
  \<comment> \<open>\<^verbatim>\<open>data = list(f.read(2000)); data[13] = 0xFE; output_file.write(bytearray(data))\<close>\<close>
  "invalid_chip_id_setup fs =
     bind (open_existing fs bin_name) (\<lambda>f.
       let data = fst (file_read 2000 f) in
       bind (list_assign data 13 0xFE) (\<lambda>data.
         Inr (file_close fs ''random.bin'' (file_write data open_truncate))))"

definition getsize :: "directory \<Rightarrow> string \<Rightarrow> exn + nat" where
  \<comment> \<open>\<^verbatim>\<open>os.path.getsize\<close>\<close>
  "getsize fs name =
     (case fs name of None \<Rightarrow> Inl FileNotFoundError | Some d \<Rightarrow> Inr (length d))"

definition anti_rollback_bin_name :: string where
  "anti_rollback_bin_name = ''advanced_https_ota_lower_sec_version.bin''"

definition anti_rollback_setup :: "directory \<Rightarrow> exn + directory" where
  \<comment> \<open>\<^verbatim>\<open>output_file.write(f.read(file_size)); output_file.seek(36);
      output_file.write(b'\x00')\<close>\<close>
  "anti_rollback_setup fs =
     bind (getsize fs bin_name) (\<lambda>file_size.
     bind (open_existing fs bin_name) (\<lambda>f.
       let output_file = open_truncate;
           output_file = file_write (fst (file_read file_size f)) output_file;
           output_file = file_seek 36 output_file;
           output_file = file_write [0x00] output_file
       in Inr (file_close fs anti_rollback_bin_name output_file)))"

definition anti_rollback_expected_marker :: string where
  \<comment> \<open>the pattern of the scenario's last \<^verbatim>\<open>dut.expect\<close>\<close>
  "anti_rollback_expected_marker =
     ''New firmware security version is less than eFuse programmed, 0 < 1''"

section \<open>Random content\<close>

text \<open>
  \<^verbatim>\<open>random.randrange\<close> and \<^verbatim>\<open>random.randint\<close> follow the standard library: a
  range of \<open>n\<close> values is indexed by \<^verbatim>\<open>_randbelow(n)\<close>, a number in \<open>0..n-1\<close>. The
  generator's hidden state is a parameter: \<open>raw\<close> is the number the generator
  produces for the call, reduced into the range. \<^verbatim>\<open>struct.pack('B', v)\<close> is the
  single byte \<open>v\<close> and raises \<^verbatim>\<open>struct.error\<close> outside 0..255.
\<close>

definition randbelow :: "nat \<Rightarrow> int \<Rightarrow> int" where
  "randbelow raw n = int raw mod n"

definition randrange :: "int \<Rightarrow> int \<Rightarrow> int \<Rightarrow> nat \<Rightarrow> exn + int" where
  "randrange start stop step raw =
     (let width = stop - start in
      if step = 1 then
        (if width > 0 then Inr (start + randbelow raw width) else Inl ValueError)
      else if step = 0 then Inl ValueError
      else
        (let n = (if step > 0 then (width + step - 1) div step
                  else (width + step + 1) div step)
         in if n \<le> 0 then Inl ValueError else Inr (start + step * randbelow raw n)))"

definition randint :: "int \<Rightarrow> int \<Rightarrow> nat \<Rightarrow> exn + int" where
  "randint a b raw = randrange a (b + 1) 1 raw"

definition struct_pack_B :: "int \<Rightarrow> exn + byte list" where
  "struct_pack_B v = (if 0 \<le> v \<and> v \<le> 255 then Inr [word_of_int v] else Inl StructError)"

definition ESP_IMAGE_MAGIC :: byte where
  \<comment> \<open>the magic byte named by the comment in the scenario: \<^verbatim>\<open>0xE9\<close>\<close>
  "ESP_IMAGE_MAGIC = 0xE9"

fun write_random_bytes :: "nat \<Rightarrow> (nat \<Rightarrow> nat) \<Rightarrow> nat \<Rightarrow> pyfile \<Rightarrow> exn + pyfile" where
  \<comment> \<open>\<^verbatim>\<open>for i in range(count): output_file.write(struct.pack('B', random.randrange(0, 255, 1)))\<close>;
      \<open>rng i\<close> is the generator's number for the \<open>i\<close>-th draw\<close>
  "write_random_bytes 0 rng i f = Inr f"
| "write_random_bytes (Suc count) rng i f =
     bind (randrange 0 255 1 (rng i)) (\<lambda>v.
     bind (struct_pack_B v) (\<lambda>bs.
       write_random_bytes count rng (Suc i) (file_write bs f)))"

definition random_bin_setup :: "directory \<Rightarrow> nat \<Rightarrow> (nat \<Rightarrow> nat) \<Rightarrow> exn + directory" where
  "random_bin_setup fs random_bin_size rng =
     bind (struct_pack_B 0) (\<lambda>b0.
     bind (write_random_bytes (random_bin_size - 1) rng 0 (file_write b0 open_truncate)) (\<lambda>output_file.
       Inr (file_close fs ''random.bin'' output_file)))"

definition random_bin_size :: nat where
  "random_bin_size = 32000"

section \<open>The HTTPS file server's request handler\<close>





section \<open>The redirect server\<close>

text \<open>
  \<^verbatim>\<open>str\<close> of a port number is its decimal numeral.
\<close>

fun str_nat :: "nat \<Rightarrow> string" where
  "str_nat n =
     (if n < 10 then [''0123456789'' ! n]
      else str_nat (n div 10) @ [''0123456789'' ! (n mod 10)])"

declare str_nat.simps [simp del]























section \<open>Scenarios\<close>

text \<open>
  A scenario runs against the device under test, the host's operating system and the
  clock. Each call to one of them either returns (with a text: the captured group of
  an expectation, a looked-up address) or raises; which of the two is decided outside
  the harness, by the environment \<open>env\<close>: \<open>env k\<close> is the outcome of the \<open>k\<close>-th such
  call of the scenario. The world records the processes created so far with their
  state, the calls that returned, and the variable \<^verbatim>\<open>thread1\<close> of the scenarios that
  rebind it.
\<close>

datatype target =
    HttpsServer string string nat
  | RedirectServer string string nat nat

datatype pstate = Initial | Started | Stopped

datatype event =
    Expect string nat
  | Write string
  | Sleep int
  | HardReset
  | ErasePartition string
  | HostLookup string
  | Start nat
  | Terminate nat

datatype outcome = Returns string | Raises exn

record world =
  procs :: "(target \<times> pstate) list"
  trace :: "event list"
  calls :: nat
  thread1 :: nat

type_synonym 'a action = "world \<Rightarrow> (exn + 'a) \<times> world"

definition returnA :: "'a \<Rightarrow> 'a action" where
  "returnA v w = (Inr v, w)"

definition raiseA :: "exn \<Rightarrow> 'a action" where
  "raiseA e w = (Inl e, w)"

definition bindA :: "'a action \<Rightarrow> ('a \<Rightarrow> 'b action) \<Rightarrow> 'b action" where
  "bindA m f w = (case m w of (Inl e, w') \<Rightarrow> (Inl e, w') | (Inr v, w') \<Rightarrow> f v w')"

definition ignore :: "'a action \<Rightarrow> unit action" where
  \<comment> \<open>a call whose result is not used\<close>
  "ignore m = bindA m (\<lambda>_. returnA ())"

fun block :: "unit action list \<Rightarrow> unit action" where
  \<comment> \<open>statements in sequence\<close>
  "block [] = returnA ()"
| "block (m # ms) = bindA m (\<lambda>_. block ms)"

definition try_finally :: "'a action \<Rightarrow> unit action \<Rightarrow> 'a action" where
  \<comment> \<open>\<^verbatim>\<open>try: stmts finally: cleanup\<close>: the cleanup runs on every exit of the
      statements; an exception of the cleanup replaces their result\<close>
  "try_finally stmts cleanup w =
     (case stmts w of
        (r, w') \<Rightarrow>
          (case cleanup w' of
             (Inl e, w'') \<Rightarrow> (Inl e, w'')
           | (Inr _, w'') \<Rightarrow> (r, w'')))"

definition except_TIMEOUT :: "'a action \<Rightarrow> 'a action \<Rightarrow> 'a action" where
  \<comment> \<open>\<^verbatim>\<open>try: stmts except pexpect.exceptions.TIMEOUT: handler\<close>\<close>
  "except_TIMEOUT stmts handler w =
     (case stmts w of
        (Inl e, w') \<Rightarrow> if e = TIMEOUT then handler w' else (Inl e, w')
      | (Inr v, w') \<Rightarrow> (Inr v, w'))"

fun repeat :: "nat \<Rightarrow> unit action \<Rightarrow> unit action" where
  \<comment> \<open>\<^verbatim>\<open>for _ in range(n): stmts\<close>\<close>
  "repeat 0 stmts = returnA ()"
| "repeat (Suc n) stmts = bindA stmts (\<lambda>_. repeat n stmts)"

definition external :: "(nat \<Rightarrow> outcome) \<Rightarrow> event \<Rightarrow> string action" where
  "external env ev w =
     (case env (calls w) of
        Raises e \<Rightarrow> (Inl e, w\<lparr>calls := Suc (calls w)\<rparr>)
      | Returns s \<Rightarrow> (Inr s, w\<lparr>trace := trace w @ [ev], calls := Suc (calls w)\<rparr>))"

definition dut_expect :: "(nat \<Rightarrow> outcome) \<Rightarrow> string \<Rightarrow> nat \<Rightarrow> string action" where
  \<comment> \<open>\<^verbatim>\<open>dut.expect(pattern, timeout=t)\<close>; the text returned is group 1 of the match\<close>
  "dut_expect env pattern timeout = external env (Expect pattern timeout)"

definition dut_write :: "(nat \<Rightarrow> outcome) \<Rightarrow> string \<Rightarrow> unit action" where
  "dut_write env s = ignore (external env (Write s))"

definition time_sleep :: "(nat \<Rightarrow> outcome) \<Rightarrow> int \<Rightarrow> unit action" where
  "time_sleep env secs = ignore (external env (Sleep secs))"

definition hard_reset :: "(nat \<Rightarrow> outcome) \<Rightarrow> unit action" where
  "hard_reset env = ignore (external env HardReset)"

definition erase_partition :: "(nat \<Rightarrow> outcome) \<Rightarrow> string \<Rightarrow> unit action" where
  "erase_partition env name = ignore (external env (ErasePartition name))"

definition get_host_ip4_by_dest_ip :: "(nat \<Rightarrow> outcome) \<Rightarrow> string \<Rightarrow> string action" where
  "get_host_ip4_by_dest_ip env ip = external env (HostLookup ip)"

text \<open>
  \<^verbatim>\<open>multiprocessing.Process(target=..., args=...)\<close> creates a process object that is not
  running yet. \<^verbatim>\<open>start()\<close> may fail in the operating system, and then the process is
  not running. \<^verbatim>\<open>terminate()\<close> stops the process unconditionally and does not
  fail, also when the process has already stopped; on a process object that was never
  started it raises \<^verbatim>\<open>AttributeError\<close>, as the standard library does.
\<close>

definition Process :: "target \<Rightarrow> nat action" where
  "Process t w = (Inr (length (procs w)), w\<lparr>procs := procs w @ [(t, Initial)]\<rparr>)"

definition set_pstate :: "nat \<Rightarrow> pstate \<Rightarrow> world \<Rightarrow> world" where
  "set_pstate h st w = w\<lparr>procs := (procs w)[h := (fst (procs w ! h), st)]\<rparr>"

definition start :: "(nat \<Rightarrow> outcome) \<Rightarrow> nat \<Rightarrow> unit action" where
  "start env h w =
     (case external env (Start h) w of
        (Inl e, w') \<Rightarrow> (Inl e, w')
      | (Inr _, w') \<Rightarrow> (Inr (), set_pstate h Started w'))"

definition terminate :: "nat \<Rightarrow> unit action" where
  "terminate h w =
     (if h < length (procs w) \<and> snd (procs w ! h) \<noteq> Initial
      then (Inr (), (set_pstate h Stopped w)\<lparr>trace := trace w @ [Terminate h]\<rparr>)
      else (Inl AttributeError, w))"

definition running :: "world \<Rightarrow> nat list" where
  \<comment> \<open>the handles of the processes that were started and not stopped\<close>
  "running w = filter (\<lambda>h. snd (procs w ! h) = Started) [0..<length (procs w)]"

definition set_thread1 :: "nat \<Rightarrow> unit action" where
  "set_thread1 h w = (Inr (), w\<lparr>thread1 := h\<rparr>)"

definition get_thread1 :: "nat action" where
  "get_thread1 w = (Inr (thread1 w), w)"

definition lift :: "exn + 'a \<Rightarrow> 'a action" where
  "lift r w = (r, w)"

definition initial_world :: world where
  "initial_world = \<lparr>procs = [], trace = [], calls = 0, thread1 = 0\<rparr>"

definition NVS_PARTITION :: string where
  "NVS_PARTITION = ''nvs''"

definition ipv4_pattern :: string where
  \<comment> \<open>the regular expression \<^verbatim>\<open>IPv4 address: (\d+\.\d+\.\d+\.\d+)[^\d]\<close>;
      \<open>CHR 0x5C\<close> is the backslash\<close>
  "ipv4_pattern =
     (let d = [CHR 0x5C, CHR ''d'']; dot = [CHR 0x5C, CHR ''.'']
      in ''IPv4 address: ('' @ d @ ''+'' @ dot @ d @ ''+'' @ dot @ d @ ''+'' @ dot @ d
           @ ''+)[^'' @ d @ '']'')"

definition https_url :: "string \<Rightarrow> nat \<Rightarrow> string \<Rightarrow> string" where
  \<comment> \<open>\<^verbatim>\<open>'https://' + host_ip + ':' + str(server_port) + '/' + name\<close>\<close>
  "https_url host_ip server_port name =
     ''https://'' @ host_ip @ '':'' @ str_nat server_port @ ''/'' @ name"

definition expect_ip_address :: "(nat \<Rightarrow> outcome) \<Rightarrow> string action" where
  \<comment> \<open>\<^verbatim>\<open>try: ip_address = dut.expect(r'IPv4 address: ...', timeout=30)[1].decode()
      except pexpect.exceptions.TIMEOUT: raise ValueError(...)\<close>\<close>
  "expect_ip_address env = except_TIMEOUT (dut_expect env ipv4_pattern 30) (raiseA ValueError)"

definition restart_device_with_random_delay ::
  "(nat \<Rightarrow> outcome) \<Rightarrow> nat \<Rightarrow> int \<Rightarrow> int \<Rightarrow> unit action" where
  \<comment> \<open>\<open>raw\<close> is the random generator's number for the one draw\<close>
  "restart_device_with_random_delay env raw min_delay max_delay =
     bindA (lift (randint min_delay max_delay raw)) (\<lambda>delay.
       block [time_sleep env delay, hard_reset env])"

definition test_examples_protocol_advanced_https_ota_example ::
  "(nat \<Rightarrow> outcome) \<Rightarrow> string \<Rightarrow> unit action" where
  "test_examples_protocol_advanced_https_ota_example env binary_path =
     bindA (Process (HttpsServer binary_path ''0.0.0.0'' 8001)) (\<lambda>thread1.
     block
      [start env thread1,
       try_finally
         (repeat 3
           (bindA (dut_expect env ''Loaded app from partition at offset'' 30) (\<lambda>_.
            bindA (expect_ip_address env) (\<lambda>ip_address.
            bindA (dut_expect env ''Starting Advanced OTA example'' 30) (\<lambda>_.
            bindA (get_host_ip4_by_dest_ip env ip_address) (\<lambda>host_ip.
            block
             [dut_write env (https_url host_ip 8001 bin_name),
              ignore (dut_expect env ''upgrade successful. Rebooting ...'' 150)]))))))
         (terminate thread1)])"

definition test_examples_protocol_advanced_https_ota_example_ota_resumption ::
  "(nat \<Rightarrow> outcome) \<Rightarrow> nat \<Rightarrow> string \<Rightarrow> unit action" where
  "test_examples_protocol_advanced_https_ota_example_ota_resumption env raw binary_path =
     block
      [erase_partition env NVS_PARTITION,
       bindA (Process (HttpsServer binary_path ''0.0.0.0'' 8001)) set_thread1,
       bindA get_thread1 (start env),
       try_finally
         (bindA (dut_expect env ''Loaded app from partition at offset'' 30) (\<lambda>_.
          bindA (expect_ip_address env) (\<lambda>ip_address.
          bindA (dut_expect env ''Starting Advanced OTA example'' 30) (\<lambda>_.
          bindA (get_host_ip4_by_dest_ip env ip_address) (\<lambda>host_ip.
          block
           [dut_write env (https_url host_ip 8001 bin_name),
            ignore (dut_expect env ''Starting OTA...'' 60),
            restart_device_with_random_delay env raw 5 15,
            bindA get_thread1 terminate,
            bindA (Process (HttpsServer binary_path ''0.0.0.0'' 8001)) set_thread1,
            bindA get_thread1 (start env),
            ignore (dut_expect env ''Loaded app from partition at offset'' 180),
            bindA (expect_ip_address env) (\<lambda>ip_address.
            bindA (dut_expect env ''Starting Advanced OTA example'' 30) (\<lambda>_.
            bindA (get_host_ip4_by_dest_ip env ip_address) (\<lambda>host_ip.
            block
             [dut_write env (https_url host_ip 8001 bin_name),
              ignore (dut_expect env ''Starting OTA...'' 60),
              ignore (dut_expect env ''upgrade successful. Rebooting ...'' 150)])))])))))
         (bindA get_thread1 terminate)]"

definition test_examples_protocol_advanced_https_ota_example_redirect_url ::
  "(nat \<Rightarrow> outcome) \<Rightarrow> string \<Rightarrow> unit action" where
  "test_examples_protocol_advanced_https_ota_example_redirect_url env binary_path =
     bindA (dut_expect env ''Loaded app from partition at offset'' 30) (\<lambda>_.
     bindA (expect_ip_address env) (\<lambda>ip_address.
     bindA (dut_expect env ''Starting Advanced OTA example'' 30) (\<lambda>_.
     bindA (get_host_ip4_by_dest_ip env ip_address) (\<lambda>host_ip.
     bindA (Process (HttpsServer binary_path host_ip 8001)) (\<lambda>thread1.
     bindA (Process (RedirectServer binary_path host_ip 8081 8082)) (\<lambda>thread2.
     bindA (Process (RedirectServer binary_path host_ip 8082 8001)) (\<lambda>thread3.
     block
      [start env thread1,
       start env thread2,
       start env thread3,
       time_sleep env 1,
       try_finally
         (block
           [dut_write env (https_url host_ip 8081 bin_name),
            ignore (dut_expect env ''upgrade successful. Rebooting ...'' 150),
            ignore (dut_expect env ''Loaded app from partition at offset'' 30),
            ignore (dut_expect env ''OTA example app_main start'' 10)])
         (block [terminate thread1, terminate thread2, terminate thread3])])))))))"

text \<open>
  What a trace asks of the device: the patterns it expects, in order, and the lines it
  writes.
\<close>

fun expected_patterns :: "event list \<Rightarrow> string list" where
  "expected_patterns [] = []"
| "expected_patterns (Expect pat t # evs) = pat # expected_patterns evs"
| "expected_patterns (ev # evs) = expected_patterns evs"

fun written_lines :: "event list \<Rightarrow> string list" where
  "written_lines [] = []"
| "written_lines (Write s # evs) = s # written_lines evs"
| "written_lines (ev # evs) = written_lines evs"

section \<open>Assertions about a scenario\<close>

text \<open>
  \<open>hoare P m Q E\<close>: from a world that satisfies \<open>P\<close>, the action \<open>m\<close> ends in a world
  that satisfies \<open>Q\<close> when it returns and \<open>E\<close> when it raises.
\<close>

definition hoare ::
  "(world \<Rightarrow> bool) \<Rightarrow> 'a action \<Rightarrow> ('a \<Rightarrow> world \<Rightarrow> bool) \<Rightarrow> (world \<Rightarrow> bool) \<Rightarrow> bool" where
  "hoare P m Q E =
     (\<forall>w. P w \<longrightarrow> (case m w of (Inl e, w') \<Rightarrow> E w' | (Inr v, w') \<Rightarrow> Q v w'))"

definition none_running :: "world \<Rightarrow> bool" where
  "none_running w = (running w = [])"

definition only_thread1_running :: "world \<Rightarrow> bool" where
  "only_thread1_running w = (\<forall>h \<in> set (running w). h = thread1 w)"

section \<open>Arithmetic of the masked byte\<close>

lemma and_255_mod: "(k::int) AND 255 = k mod 256"
proof -
  have m: "(255::int) = mask 8"
    by (simp add: mask_eq_exp_minus_1)
  show ?thesis
    unfolding m by (simp add: take_bit_eq_mod flip: take_bit_eq_mask)
qed

lemma and_255_range: "0 \<le> (k::int) AND 255 \<and> (k::int) AND 255 < 256"
  by (simp add: and_255_mod)

lemma unat_byte_of_int: "unat (word_of_int k :: byte) = nat (k mod 256)"
  by (simp add: unsigned_of_int take_bit_eq_mod)

lemma unat_incremented_byte:
  "unat (word_of_int ((uint (v::byte) + 1) AND 255) :: byte) = (unat v + 1) mod 256"
  by (simp add: and_255_mod unat_byte_of_int nat_mod_distrib nat_add_distrib)

section \<open>What \<^verbatim>\<open>modify_chip_revision\<close> computes\<close>

lemma bytearray_set_masked:
  "bytearray_set h i (k AND 0xFF) =
     (if i < length h then Inr (h[i := word_of_int (k AND 0xFF)]) else Inl IndexError)"
  using and_255_range [of k] by (simp add: bytearray_set_def)

lemma edit_min_rev_increment:
  "edit_min_rev header min_rev True =
     (if 15 < length header
      then Inr (header[15 := word_of_int ((uint (header ! 15) + 1) AND 0xFF)])
      else Inl IndexError)"
  by (simp add: edit_min_rev_def bind_def bytearray_get_def bytearray_set_masked
      TARGET_OFFSET_MIN_REV_def)

lemma edit_min_rev_set:
  "edit_min_rev header (Some m) False =
     (if 15 < length header then Inr (header[15 := word_of_int (m AND 0xFF)])
      else Inl IndexError)"
  by (simp add: edit_min_rev_def bytearray_set_masked TARGET_OFFSET_MIN_REV_def)

lemma edit_min_rev_none: "edit_min_rev header None False = Inr header"
  by (simp add: edit_min_rev_def)

lemma edit_max_rev_set:
  "edit_max_rev header (Some m) =
     (if 17 < length header then Inr (header[17 := word_of_int (m AND 0xFF)])
      else Inl IndexError)"
  by (simp add: edit_max_rev_def bytearray_set_masked TARGET_OFFSET_MAX_REV_def)

lemma edit_max_rev_none: "edit_max_rev header None = Inr header"
  by (simp add: edit_max_rev_def)

lemma edit_min_rev_length:
  "edit_min_rev header min_rev inc = Inr h \<Longrightarrow> length h = length header"
  by (cases inc; cases min_rev)
    (auto simp: edit_min_rev_increment edit_min_rev_set edit_min_rev_none
      split: if_splits)

lemma edit_max_rev_length:
  "edit_max_rev header max_rev = Inr h \<Longrightarrow> length h = length header"
  by (cases max_rev) (auto simp: edit_max_rev_set edit_max_rev_none split: if_splits)

lemma write_back_header:
  "length h = length (take HEADER_SIZE d) \<Longrightarrow>
   content (file_write h \<lparr>content = d, pos = 0\<rparr>) = h @ drop HEADER_SIZE d"
  by (simp add: file_write_def Let_def min_def drop_all split: if_splits)

lemma modify_chip_revision_result:
  assumes "fs app_path = Some d"
  shows "modify_chip_revision fs app_path min_rev max_rev inc =
           bind (edit_min_rev (take HEADER_SIZE d) min_rev inc) (\<lambda>h1.
           bind (edit_max_rev h1 max_rev) (\<lambda>h2.
           Inr (fs(app_path \<mapsto> h2 @ drop HEADER_SIZE d))))"
proof (cases "edit_min_rev (take HEADER_SIZE d) min_rev inc")
  case (Inl e)
  then have "\<not> isinstance_OSError e"
    by (cases inc; cases min_rev)
      (auto simp: edit_min_rev_increment edit_min_rev_set edit_min_rev_none
        split: if_splits)
  with Inl assms show ?thesis
    by (simp add: modify_chip_revision_def open_existing_def file_read_def bind_def
        except_IOError_def)
next
  case h1: (Inr h1)
  show ?thesis
  proof (cases "edit_max_rev h1 max_rev")
    case (Inl e)
    then have "\<not> isinstance_OSError e"
      by (cases max_rev) (auto simp: edit_max_rev_set edit_max_rev_none split: if_splits)
    with Inl h1 assms show ?thesis
      by (simp add: modify_chip_revision_def open_existing_def file_read_def bind_def
          except_IOError_def)
  next
    case (Inr h2)
    have "length h2 = length (take HEADER_SIZE d)"
      using edit_min_rev_length [OF h1] edit_max_rev_length [OF Inr] by simp
    then have "content (file_write h2 \<lparr>content = d, pos = 0\<rparr>) = h2 @ drop HEADER_SIZE d"
      by (rule write_back_header)
    with Inr h1 assms show ?thesis
      by (simp add: modify_chip_revision_def open_existing_def file_read_def bind_def
          except_IOError_def file_close_def)
  qed
qed

lemma take_update_append_drop:
  "i < n \<Longrightarrow> (take n d)[i := x] @ drop n d = d[i := x]"
proof -
  assume "i < n"
  then have "(take n d)[i := x] @ drop n d = take n (d[i := x]) @ drop n (d[i := x])"
    by (simp add: take_update_swap)
  then show ?thesis
    by simp
qed

lemma take_update2_append_drop:
  "i < n \<Longrightarrow> j < n \<Longrightarrow> (take n d)[i := x, j := y] @ drop n d = d[i := x, j := y]"
proof -
  assume i: "i < n" and j: "j < n"
  have "(take n d)[i := x, j := y] @ drop n d
          = (take n (d[i := x]))[j := y] @ drop n (d[i := x])"
    using i by (simp add: take_update_swap)
  also have "\<dots> = d[i := x, j := y]"
    using j by (rule take_update_append_drop)
  finally show ?thesis .
qed

lemma edit_min_rev_shape:
  "edit_min_rev h min_rev inc = Inr h1 \<Longrightarrow> \<exists>a. h1 = h[15 := a]"
proof (cases inc)
  case True
  assume "edit_min_rev h min_rev inc = Inr h1"
  with True show ?thesis
    by (auto simp: edit_min_rev_increment split: if_splits)
next
  case False
  assume r: "edit_min_rev h min_rev inc = Inr h1"
  show ?thesis
  proof (cases min_rev)
    case None
    with r False have "h1 = h[15 := h ! 15]"
      by (simp add: edit_min_rev_none)
    then show ?thesis ..
  next
    case (Some m)
    with r False show ?thesis
      by (auto simp: edit_min_rev_set split: if_splits)
  qed
qed

lemma edit_max_rev_shape:
  "edit_max_rev h max_rev = Inr h2 \<Longrightarrow> \<exists>b. h2 = h[17 := b]"
proof (cases max_rev)
  case None
  assume "edit_max_rev h max_rev = Inr h2"
  with None have "h2 = h[17 := h ! 17]"
    by (simp add: edit_max_rev_none)
  then show ?thesis ..
next
  case (Some m)
  assume "edit_max_rev h max_rev = Inr h2"
  with Some show ?thesis
    by (auto simp: edit_max_rev_set split: if_splits)
qed

lemma modify_chip_revision_shape:
  assumes "fs app_path = Some d"
    and "modify_chip_revision fs app_path min_rev max_rev inc = Inr fs'"
  shows "\<exists>a b. fs' = fs(app_path \<mapsto> d[15 := a, 17 := b])"
proof -
  from assms obtain h1 h2
    where h1: "edit_min_rev (take HEADER_SIZE d) min_rev inc = Inr h1"
      and h2: "edit_max_rev h1 max_rev = Inr h2"
      and fs': "fs' = fs(app_path \<mapsto> h2 @ drop HEADER_SIZE d)"
    by (auto simp: modify_chip_revision_result bind_def split: sum.splits)
  from edit_min_rev_shape [OF h1] obtain a where a: "h1 = (take HEADER_SIZE d)[15 := a]" ..
  from edit_max_rev_shape [OF h2] obtain b where b: "h2 = h1[17 := b]" ..
  have "h2 @ drop HEADER_SIZE d = d[15 := a, 17 := b]"
    unfolding a b by (simp add: take_update2_append_drop HEADER_SIZE_def)
  then show ?thesis
    using fs' by auto
qed

lemma modify_chip_revision_long:
  assumes "fs app_path = Some d" and "17 < length d"
  shows "modify_chip_revision fs app_path min_rev max_rev inc =
     Inr (fs(app_path \<mapsto>
       (let d1 = (if inc then d[15 := word_of_int ((uint (d ! 15) + 1) AND 0xFF)]
                  else (case min_rev of
                          Some m \<Rightarrow> d[15 := word_of_int (m AND 0xFF)]
                        | None \<Rightarrow> d))
        in (case max_rev of
              Some m \<Rightarrow> d1[17 := word_of_int (m AND 0xFF)]
            | None \<Rightarrow> d1))))"
proof -
  let ?h = "take HEADER_SIZE d"
  have len: "17 < length ?h"
    using assms(2) by (simp add: HEADER_SIZE_def)
  have app: "\<And>i x. i < 512 \<Longrightarrow> ?h[i := x] @ drop HEADER_SIZE d = d[i := x]"
    by (simp add: take_update_append_drop HEADER_SIZE_def)
  have app2: "\<And>x y. ?h[15 := x, 17 := y] @ drop HEADER_SIZE d = d[15 := x, 17 := y]"
    by (simp add: take_update2_append_drop HEADER_SIZE_def)
  have h15: "?h ! 15 = d ! 15"
    by (simp add: HEADER_SIZE_def)
  show ?thesis
    using len
    by (cases inc; cases min_rev; cases max_rev)
      (simp_all add: modify_chip_revision_result [of fs app_path d, OF assms(1)] bind_def app app2 h15
        edit_min_rev_increment edit_min_rev_set edit_min_rev_none
        edit_max_rev_set edit_max_rev_none)
qed

section \<open>Claims about the revision-header edit\<close>

text \<open>
  C5. Incrementing the minimum-hardware-revision byte is arithmetic modulo 256. For an
  image that holds both revision bytes (more than \<open>0x11\<close> bytes long),
  \<^verbatim>\<open>modify_chip_revision(app_path, min_rev, max_rev, increment_min=True)\<close> returns
  normally, the file keeps its length, and the byte stored at offset \<open>0x0F\<close> is the old
  byte plus one modulo 256; a byte of 255 becomes 0.
\<close>

theorem increment_min_rev_mod_256:
  assumes "fs app_path = Some d" and "TARGET_OFFSET_MAX_REV < length d"
  shows "\<exists>d'. modify_chip_revision fs app_path min_rev max_rev True
                 = Inr (fs(app_path \<mapsto> d'))
           \<and> length d' = length d
           \<and> unat (d' ! TARGET_OFFSET_MIN_REV)
               = (unat (d ! TARGET_OFFSET_MIN_REV) + 1) mod 256
           \<and> (d ! TARGET_OFFSET_MIN_REV = 255 \<longrightarrow> d' ! TARGET_OFFSET_MIN_REV = 0)"
proof -
  from assms(2) have len: "17 < length d"
    by (simp add: TARGET_OFFSET_MAX_REV_def)
  let ?d1 = "d[15 := word_of_int ((uint (d ! 15) + 1) AND 0xFF)]"
  let ?d' = "case max_rev of Some m \<Rightarrow> ?d1[17 := word_of_int (m AND 0xFF)] | None \<Rightarrow> ?d1"
  have run: "modify_chip_revision fs app_path min_rev max_rev True = Inr (fs(app_path \<mapsto> ?d'))"
    by (simp add: modify_chip_revision_long [of fs app_path d, OF assms(1) len] Let_def)
  have l: "length ?d' = length d"
    by (cases max_rev) simp_all
  have b: "?d' ! 15 = word_of_int ((uint (d ! 15) + 1) AND 0xFF)"
    using len by (cases max_rev) simp_all
  have u: "unat (?d' ! 15) = (unat (d ! 15) + 1) mod 256"
    unfolding b by (rule unat_incremented_byte)
  have z: "d ! 15 = 255 \<longrightarrow> ?d' ! 15 = 0"
    unfolding b by simp
  from run l u z show ?thesis
    unfolding TARGET_OFFSET_MIN_REV_def by (intro exI [of _ ?d']) simp
qed

theorem increment_min_rev_mod_256_witness:
  "\<exists>d'. modify_chip_revision [''advanced_https_ota.bin'' \<mapsto> replicate 24 255]
           ''advanced_https_ota.bin'' None None True
           = Inr ([''advanced_https_ota.bin'' \<mapsto> replicate 24 255](''advanced_https_ota.bin'' \<mapsto> d'))
       \<and> length d' = 24 \<and> unat (d' ! TARGET_OFFSET_MIN_REV) = 0
       \<and> d' ! TARGET_OFFSET_MIN_REV = 0"
  using increment_min_rev_mod_256
    [of "[''advanced_https_ota.bin'' \<mapsto> replicate 24 255]" "''advanced_https_ota.bin''"
      "replicate 24 255" None None]
  by (simp add: TARGET_OFFSET_MAX_REV_def TARGET_OFFSET_MIN_REV_def)

text \<open>
  C10. When \<open>increment_min\<close> is true a supplied \<open>min_rev\<close> is ignored: the call behaves
  as the one without \<open>min_rev\<close>, and on an image that holds both revision bytes the
  minimum-revision byte becomes the old byte plus one modulo 256. The value
  \<open>min_rev\<close> is stored (reduced modulo 256) when \<open>increment_min\<close> is false.
\<close>

theorem increment_min_ignores_min_rev:
  "modify_chip_revision fs app_path (Some m) max_rev True
     = modify_chip_revision fs app_path None max_rev True
   \<and> (fs app_path = Some d \<and> TARGET_OFFSET_MAX_REV < length d \<longrightarrow>
        (\<exists>d'. modify_chip_revision fs app_path (Some m) max_rev True
                 = Inr (fs(app_path \<mapsto> d'))
             \<and> unat (d' ! TARGET_OFFSET_MIN_REV)
                 = (unat (d ! TARGET_OFFSET_MIN_REV) + 1) mod 256)
      \<and> (\<exists>d'. modify_chip_revision fs app_path (Some m) max_rev False
                 = Inr (fs(app_path \<mapsto> d'))
             \<and> uint (d' ! TARGET_OFFSET_MIN_REV) = m mod 256))"
proof (intro conjI impI)
  show "modify_chip_revision fs app_path (Some m) max_rev True
     = modify_chip_revision fs app_path None max_rev True"
    by (simp add: modify_chip_revision_def edit_min_rev_def)
next
  assume a: "fs app_path = Some d \<and> TARGET_OFFSET_MAX_REV < length d"
  then have d: "fs app_path = Some d" and len: "17 < length d"
    by (simp_all add: TARGET_OFFSET_MAX_REV_def)
  let ?d1 = "d[15 := word_of_int ((uint (d ! 15) + 1) AND 0xFF)]"
  let ?d' = "case max_rev of Some k \<Rightarrow> ?d1[17 := word_of_int (k AND 0xFF)] | None \<Rightarrow> ?d1"
  have "?d' ! 15 = word_of_int ((uint (d ! 15) + 1) AND 0xFF)"
    using len by (cases max_rev) simp_all
  then have "unat (?d' ! 15) = (unat (d ! 15) + 1) mod 256"
    by (simp only: unat_incremented_byte)
  then show "\<exists>d'. modify_chip_revision fs app_path (Some m) max_rev True
                 = Inr (fs(app_path \<mapsto> d'))
             \<and> unat (d' ! TARGET_OFFSET_MIN_REV)
                 = (unat (d ! TARGET_OFFSET_MIN_REV) + 1) mod 256"
    unfolding TARGET_OFFSET_MIN_REV_def
    by (intro exI [of _ ?d']) (simp add: modify_chip_revision_long [of fs app_path d, OF d len] Let_def)
next
  assume a: "fs app_path = Some d \<and> TARGET_OFFSET_MAX_REV < length d"
  then have d: "fs app_path = Some d" and len: "17 < length d"
    by (simp_all add: TARGET_OFFSET_MAX_REV_def)
  let ?d1 = "d[15 := word_of_int (m AND 0xFF)]"
  let ?d' = "case max_rev of Some k \<Rightarrow> ?d1[17 := word_of_int (k AND 0xFF)] | None \<Rightarrow> ?d1"
  have "?d' ! 15 = (word_of_int (m AND 0xFF) :: byte)"
    using len by (cases max_rev) simp_all
  then have "uint (?d' ! 15) = m mod 256"
    by (simp add: and_255_mod uint_word_of_int)
  then show "\<exists>d'. modify_chip_revision fs app_path (Some m) max_rev False
                 = Inr (fs(app_path \<mapsto> d'))
             \<and> uint (d' ! TARGET_OFFSET_MIN_REV) = m mod 256"
    unfolding TARGET_OFFSET_MIN_REV_def
    by (intro exI [of _ ?d']) (simp add: modify_chip_revision_long [of fs app_path d, OF d len] Let_def)
qed

theorem increment_min_ignores_min_rev_witness:
  "modify_chip_revision [''advanced_https_ota.bin'' \<mapsto> replicate 24 7]
       ''advanced_https_ota.bin'' (Some 99) None True
     = modify_chip_revision [''advanced_https_ota.bin'' \<mapsto> replicate 24 7]
       ''advanced_https_ota.bin'' None None True
   \<and> (\<exists>d'. modify_chip_revision [''advanced_https_ota.bin'' \<mapsto> replicate 24 7]
              ''advanced_https_ota.bin'' (Some 99) None True
              = Inr ([''advanced_https_ota.bin'' \<mapsto> replicate 24 7](''advanced_https_ota.bin'' \<mapsto> d'))
          \<and> unat (d' ! TARGET_OFFSET_MIN_REV) = 8)
   \<and> (\<exists>d'. modify_chip_revision [''advanced_https_ota.bin'' \<mapsto> replicate 24 7]
              ''advanced_https_ota.bin'' (Some 99) None False
              = Inr ([''advanced_https_ota.bin'' \<mapsto> replicate 24 7](''advanced_https_ota.bin'' \<mapsto> d'))
          \<and> uint (d' ! TARGET_OFFSET_MIN_REV) = 99)"
proof -
  let ?fs = "[''advanced_https_ota.bin'' \<mapsto> replicate 24 (7::byte)]"
  have pre: "?fs ''advanced_https_ota.bin'' = Some (replicate 24 7)
      \<and> TARGET_OFFSET_MAX_REV < length (replicate 24 (7::byte))"
    by (simp add: TARGET_OFFSET_MAX_REV_def)
  have e1: "(unat (replicate 24 (7::byte) ! TARGET_OFFSET_MIN_REV) + 1) mod 256 = 8"
    by (simp add: TARGET_OFFSET_MIN_REV_def)
  have e2: "(99::int) mod 256 = 99"
    by simp
  from increment_min_ignores_min_rev
    [of ?fs "''advanced_https_ota.bin''" 99 None "replicate 24 7"] pre
  show ?thesis
    unfolding e1 e2 by blast
qed

section \<open>Claims about the written artifacts\<close>

lemma file_write_at_end:
  "pos f = length (content f) \<Longrightarrow>
   file_write bs f = f\<lparr>content := content f @ bs, pos := length (content f) + length bs\<rparr>"
  by (simp add: file_write_def Let_def)

lemma file_write_fresh: "file_write bs open_truncate = \<lparr>content = bs, pos = length bs\<rparr>"
  by (simp add: file_write_def open_truncate_def)

lemma write_truncated_result:
  "fs bin_name = Some src \<Longrightarrow>
   write_truncated fs t n = Inr (fs(t \<mapsto> take n src))"
  by (simp add: write_truncated_def open_existing_def bind_def file_read_def
      file_write_fresh file_close_def)

lemma invalid_chip_id_setup_result:
  "fs bin_name = Some src \<Longrightarrow>
   invalid_chip_id_setup fs =
     (if 13 < length (take 2000 src)
      then Inr (fs(''random.bin'' \<mapsto> (take 2000 src)[13 := 0xFE]))
      else Inl IndexError)"
  by (simp add: invalid_chip_id_setup_def open_existing_def bind_def file_read_def
      list_assign_def file_write_fresh file_close_def)

lemma seek_write_one:
  "content (file_write [b] (file_seek p \<lparr>content = c, pos = q\<rparr>)) =
     (if p < length c then c[p := b] else c @ replicate (p - length c) 0 @ [b])"
  by (simp add: file_write_def file_seek_def Let_def upd_conv_take_nth_drop)

lemma anti_rollback_setup_result:
  "fs bin_name = Some src \<Longrightarrow>
   anti_rollback_setup fs =
     Inr (fs(anti_rollback_bin_name \<mapsto>
       (if 36 < length src then src[36 := 0]
        else src @ replicate (36 - length src) 0 @ [0])))"
  by (simp add: anti_rollback_setup_def getsize_def open_existing_def bind_def
      file_read_def file_write_fresh file_close_def seek_write_one)

lemma randrange_byte: "randrange 0 255 1 raw = Inr (int raw mod 255)"
  by (simp add: randrange_def randbelow_def)

lemma pack_random_byte: "struct_pack_B (int raw mod 255) = Inr [word_of_int (int raw mod 255)]"
  by (simp add: struct_pack_B_def)

lemma write_random_bytes_result:
  "pos f = length (content f) \<Longrightarrow>
   write_random_bytes count rng i f =
     Inr \<lparr>content = content f @ map (\<lambda>j. word_of_int (int (rng j) mod 255)) [i..<i + count],
          pos = length (content f) + count\<rparr>"
proof (induction count arbitrary: i f)
  case 0
  then show ?case by simp
next
  case (Suc count)
  have "pos (file_write [word_of_int (int (rng i) mod 255)] f)
        = length (content (file_write [word_of_int (int (rng i) mod 255)] f))"
    using Suc.prems by (simp add: file_write_at_end)
  from Suc.IH [OF this, of "Suc i"] Suc.prems show ?case
    by (simp add: randrange_byte pack_random_byte bind_def file_write_at_end upt_rec [of i])
qed

lemma random_bin_setup_result:
  "random_bin_setup fs n rng =
     Inr (fs(''random.bin'' \<mapsto> 0 # map (\<lambda>j. word_of_int (int (rng j) mod 255)) [0..<n - 1]))"
  by (simp add: random_bin_setup_def struct_pack_B_def bind_def file_write_fresh
      write_random_bytes_result file_close_def)

lemma random_byte_not_255: "(word_of_int (int raw mod 255) :: byte) \<noteq> 255"
proof
  assume "(word_of_int (int raw mod 255) :: byte) = 255"
  then have "uint (word_of_int (int raw mod 255) :: byte) = uint (255 :: byte)"
    by simp
  then have "(int raw mod 255) mod 256 = 255"
    by (simp add: uint_word_of_int)
  moreover have "0 \<le> int raw mod 255" "int raw mod 255 < 255"
    by simp_all
  ultimately show False
    by simp
qed


text \<open>
  C6. Truncation. For every length \<open>n\<close> not exceeding the length of the source image,
  the block that writes the truncated file returns normally, the new file holds exactly
  the first \<open>n\<close> bytes of the source, and the source file is unchanged. The scenarios
  call it with 64000 (\<^verbatim>\<open>truncated.bin\<close>) and 180 (\<^verbatim>\<open>truncated_header.bin\<close>).
\<close>

theorem truncation_copies_prefix:
  assumes "fs bin_name = Some src" and "n \<le> length src"
    and "truncated_bin_name \<noteq> bin_name"
  shows "\<exists>out. write_truncated fs truncated_bin_name n = Inr (fs(truncated_bin_name \<mapsto> out))
            \<and> out = take n src \<and> length out = n
            \<and> (fs(truncated_bin_name \<mapsto> out)) bin_name = Some src"
  using assms by (simp add: write_truncated_result)

theorem truncation_copies_prefix_witness:
  "\<exists>out. truncated_header_setup [bin_name \<mapsto> replicate 100 0xE9 @ replicate 100 0x01]
            = Inr ([bin_name \<mapsto> replicate 100 0xE9 @ replicate 100 0x01](''truncated_header.bin'' \<mapsto> out))
        \<and> out = replicate 100 0xE9 @ replicate 80 0x01 \<and> length out = 180
        \<and> ([bin_name \<mapsto> replicate 100 0xE9 @ replicate 100 0x01](''truncated_header.bin'' \<mapsto> out)) bin_name
            = Some (replicate 100 0xE9 @ replicate 100 0x01)"
  using truncation_copies_prefix
    [of "[bin_name \<mapsto> replicate 100 0xE9 @ replicate 100 0x01]"
      "replicate 100 0xE9 @ replicate 100 0x01" 180 "''truncated_header.bin''"]
  by (simp add: truncated_header_setup_def bin_name_def)

lemma marker_contains: "sublist ''0 < 1'' anti_rollback_expected_marker"
  unfolding sublist_def anti_rollback_expected_marker_def
  by (intro exI [of _ "''New firmware security version is less than eFuse programmed, ''"]
      exI [of _ "[]"]) simp

text \<open>
  C7. Security-version downgrade. The block copies the whole source image to
  \<^verbatim>\<open>advanced_https_ota_lower_sec_version.bin\<close> and writes the byte 0 at offset 36:
  every other offset of the source is copied unchanged, an image longer than 36 bytes
  gives exactly the source with byte 36 replaced, and the source file is unchanged. The
  marker the scenario then expects contains \<^verbatim>\<open>0 < 1\<close>.
\<close>

theorem security_version_overwritten_with_zero:
  assumes "fs bin_name = Some src"
  shows "\<exists>out. anti_rollback_setup fs = Inr (fs(anti_rollback_bin_name \<mapsto> out))
            \<and> out ! 36 = 0
            \<and> length out = max (length src) 37
            \<and> (\<forall>i < length src. i \<noteq> 36 \<longrightarrow> out ! i = src ! i)
            \<and> (36 < length src \<longrightarrow> out = src[36 := 0])
            \<and> (fs(anti_rollback_bin_name \<mapsto> out)) bin_name = Some src
            \<and> sublist ''0 < 1'' anti_rollback_expected_marker"
proof -
  let ?out = "if 36 < length src then src[36 := 0]
        else src @ replicate (36 - length src) 0 @ [0]"
  have run: "anti_rollback_setup fs = Inr (fs(anti_rollback_bin_name \<mapsto> ?out))"
    using assms by (rule anti_rollback_setup_result)
  have at36: "?out ! 36 = 0"
    by (simp add: nth_append)
  have len: "length ?out = max (length src) 37"
    by simp
  have frame: "\<forall>i < length src. i \<noteq> 36 \<longrightarrow> ?out ! i = src ! i"
    by (simp add: nth_append)
  have src: "(fs(anti_rollback_bin_name \<mapsto> ?out)) bin_name = Some src"
    using assms by (simp add: anti_rollback_bin_name_def bin_name_def)
  from run at36 len frame src marker_contains show ?thesis
    by (intro exI [of _ ?out]) simp
qed

text \<open>
  C3. Random corruption. For every state of the random generator the block returns
  normally and writes 32000 bytes; byte 0 is the fixed value 0, which differs from the
  image magic \<open>0xE9\<close>. The remaining bytes come from
  \<^verbatim>\<open>random.randrange(0, 255, 1)\<close>, whose values are 0..254: the byte 255 is never
  written, so the bytes are not drawn from the full byte range 0..255.
\<close>

theorem random_bin_never_holds_255:
  "\<exists>out. random_bin_setup fs random_bin_size rng = Inr (fs(''random.bin'' \<mapsto> out))
        \<and> length out = 32000
        \<and> out ! 0 = 0 \<and> out ! 0 \<noteq> ESP_IMAGE_MAGIC
        \<and> 255 \<notin> set out"
proof -
  let ?out = "0 # map (\<lambda>j. word_of_int (int (rng j) mod 255) :: byte) [0..<random_bin_size - 1]"
  have "255 \<notin> set ?out"
    using random_byte_not_255 by auto
  then show ?thesis
    by (intro exI [of _ ?out])
      (simp add: random_bin_setup_result random_bin_size_def ESP_IMAGE_MAGIC_def)
qed


theorem security_version_overwritten_with_zero_witness:
  "\<exists>out. anti_rollback_setup [bin_name \<mapsto> replicate 40 1]
            = Inr ([bin_name \<mapsto> replicate 40 1](anti_rollback_bin_name \<mapsto> out))
        \<and> out ! 36 = 0 \<and> length out = 40 \<and> out ! 35 = 1 \<and> out ! 37 = 1
        \<and> out = (replicate 40 1)[36 := 0]"
proof -
  let ?fs = "[bin_name \<mapsto> replicate 40 (1::byte)]"
  have pre: "?fs bin_name = Some (replicate 40 1)"
    by simp
  from security_version_overwritten_with_zero [of ?fs "replicate 40 1", OF pre]
  obtain out where run: "anti_rollback_setup ?fs = Inr (?fs(anti_rollback_bin_name \<mapsto> out))"
    and z: "out ! 36 = 0" and len: "length out = max (length (replicate 40 (1::byte))) 37"
    and frame: "\<forall>i < length (replicate 40 (1::byte)). i \<noteq> 36 \<longrightarrow> out ! i = replicate 40 1 ! i"
    and upd: "36 < length (replicate 40 (1::byte)) \<longrightarrow> out = (replicate 40 1)[36 := 0]"
    by blast
  from frame have "out ! 35 = 1" "out ! 37 = 1"
    by simp_all
  with run z len upd show ?thesis
    by (intro exI [of _ out]) simp
qed

text \<open>
  C1. Frame of the mutations. As stated (length identical to the source for every
  mutation) the claim fails: truncating a 181-byte image to
  \<^verbatim>\<open>truncated_header.bin\<close> gives 180 bytes.
\<close>

theorem truncated_header_shorter_than_source:
  "\<exists>out. truncated_header_setup [bin_name \<mapsto> replicate 181 0xE9]
            = Inr ([bin_name \<mapsto> replicate 181 0xE9](''truncated_header.bin'' \<mapsto> out))
        \<and> length out = 180
        \<and> length out \<noteq> length (replicate 181 (0xE9::byte))"
  by (intro exI [of _ "replicate 180 0xE9"])
    (simp add: truncated_header_setup_def write_truncated_result)

text \<open>
  C1, amended. Every mutation that is derived from the source image leaves each byte
  it does not touch identical to the source byte at the same offset:
  \<^item> the revision-header edit, when it returns, keeps the length and changes at most
    offsets \<open>0x0F\<close> and \<open>0x11\<close>;
  \<^item> truncation to \<open>n\<close> gives \<open>min n (length src)\<close> bytes, all equal to the source;
  \<^item> the chip-id overwrite, when it returns, gives the first \<open>min 2000 (length src)\<close>
    bytes with offset 13 set to \<open>0xFE\<close>;
  \<^item> the security-version overwrite gives \<open>max (length src) 37\<close> bytes with offset 36
    set to 0, and every source offset other than 36 unchanged.
  The random file is not derived from a source image.
\<close>

theorem mutations_keep_untouched_bytes:
  assumes "fs bin_name = Some src"
  shows "(\<forall>fs'. modify_chip_revision fs bin_name min_rev max_rev increment_min = Inr fs' \<longrightarrow>
            (\<exists>out. fs' = fs(bin_name \<mapsto> out) \<and> length out = length src
               \<and> (\<forall>i. i \<noteq> TARGET_OFFSET_MIN_REV \<and> i \<noteq> TARGET_OFFSET_MAX_REV
                     \<longrightarrow> out ! i = src ! i)))
       \<and> (\<exists>out. write_truncated fs truncated_bin_name n = Inr (fs(truncated_bin_name \<mapsto> out))
               \<and> length out = min n (length src)
               \<and> (\<forall>i < length out. out ! i = src ! i))
       \<and> (\<forall>fs'. invalid_chip_id_setup fs = Inr fs' \<longrightarrow>
            (\<exists>out. fs' = fs(''random.bin'' \<mapsto> out) \<and> length out = min 2000 (length src)
               \<and> out ! 13 = 0xFE
               \<and> (\<forall>i < length out. i \<noteq> 13 \<longrightarrow> out ! i = src ! i)))
       \<and> (\<exists>out. anti_rollback_setup fs = Inr (fs(anti_rollback_bin_name \<mapsto> out))
               \<and> length out = max (length src) 37
               \<and> out ! 36 = 0
               \<and> (\<forall>i < length src. i \<noteq> 36 \<longrightarrow> out ! i = src ! i))"
proof (intro conjI allI impI)
  fix fs'
  assume "modify_chip_revision fs bin_name min_rev max_rev increment_min = Inr fs'"
  from modify_chip_revision_shape [of fs bin_name src, OF assms this]
  obtain a b where "fs' = fs(bin_name \<mapsto> src[15 := a, 17 := b])"
    by blast
  then show "\<exists>out. fs' = fs(bin_name \<mapsto> out) \<and> length out = length src
               \<and> (\<forall>i. i \<noteq> TARGET_OFFSET_MIN_REV \<and> i \<noteq> TARGET_OFFSET_MAX_REV
                     \<longrightarrow> out ! i = src ! i)"
    by (intro exI [of _ "src[15 := a, 17 := b]"])
      (simp add: TARGET_OFFSET_MIN_REV_def TARGET_OFFSET_MAX_REV_def)
next
  show "\<exists>out. write_truncated fs truncated_bin_name n = Inr (fs(truncated_bin_name \<mapsto> out))
               \<and> length out = min n (length src)
               \<and> (\<forall>i < length out. out ! i = src ! i)"
    using assms by (intro exI [of _ "take n src"]) (simp add: write_truncated_result min.commute)
next
  fix fs'
  assume "invalid_chip_id_setup fs = Inr fs'"
  with assms have len: "13 < length (take 2000 src)"
    and fs': "fs' = fs(''random.bin'' \<mapsto> (take 2000 src)[13 := 0xFE])"
    by (auto simp: invalid_chip_id_setup_result split: if_splits)
  from len fs' show "\<exists>out. fs' = fs(''random.bin'' \<mapsto> out) \<and> length out = min 2000 (length src)
               \<and> out ! 13 = 0xFE
               \<and> (\<forall>i < length out. i \<noteq> 13 \<longrightarrow> out ! i = src ! i)"
    by (intro exI [of _ "(take 2000 src)[13 := 0xFE]"]) (simp add: min.commute)
next
  let ?out = "if 36 < length src then src[36 := 0]
        else src @ replicate (36 - length src) 0 @ [0]"
  have "anti_rollback_setup fs = Inr (fs(anti_rollback_bin_name \<mapsto> ?out))"
    using assms by (rule anti_rollback_setup_result)
  moreover have "?out ! 36 = 0" "length ?out = max (length src) 37"
    "\<forall>i < length src. i \<noteq> 36 \<longrightarrow> ?out ! i = src ! i"
    by (simp_all add: nth_append)
  ultimately show "\<exists>out. anti_rollback_setup fs = Inr (fs(anti_rollback_bin_name \<mapsto> out))
               \<and> length out = max (length src) 37
               \<and> out ! 36 = 0
               \<and> (\<forall>i < length src. i \<noteq> 36 \<longrightarrow> out ! i = src ! i)"
    by (intro exI [of _ ?out]) simp
qed


theorem mutations_keep_untouched_bytes_witness:
  "(\<exists>out. modify_chip_revision [bin_name \<mapsto> replicate 40 0xE9] bin_name None None True
             = Inr ([bin_name \<mapsto> replicate 40 0xE9](bin_name \<mapsto> out))
         \<and> length out = 40 \<and> out ! 16 = 0xE9)
   \<and> (\<exists>out. write_truncated [bin_name \<mapsto> replicate 40 0xE9] ''truncated.bin'' 10
             = Inr ([bin_name \<mapsto> replicate 40 0xE9](''truncated.bin'' \<mapsto> out))
         \<and> length out = 10 \<and> out ! 3 = 0xE9)
   \<and> (\<exists>out. invalid_chip_id_setup [bin_name \<mapsto> replicate 40 0xE9]
             = Inr ([bin_name \<mapsto> replicate 40 0xE9](''random.bin'' \<mapsto> out))
         \<and> length out = 40 \<and> out ! 13 = 0xFE \<and> out ! 12 = 0xE9)
   \<and> (\<exists>out. anti_rollback_setup [bin_name \<mapsto> replicate 40 0xE9]
             = Inr ([bin_name \<mapsto> replicate 40 0xE9](anti_rollback_bin_name \<mapsto> out))
         \<and> length out = 40 \<and> out ! 36 = 0 \<and> out ! 35 = 0xE9)"
proof -
  let ?src = "replicate 40 (0xE9::byte)"
  let ?fs = "[bin_name \<mapsto> ?src]"
  have pre: "?fs bin_name = Some ?src"
    by simp
  note all = mutations_keep_untouched_bytes
    [where fs = ?fs and src = ?src and min_rev = None and max_rev = None
      and increment_min = True and truncated_bin_name = "''truncated.bin''" and n = 10,
      OF pre]
  have "\<exists>fs'. modify_chip_revision ?fs bin_name None None True = Inr fs'"
    by (simp add: modify_chip_revision_long [of ?fs bin_name ?src])
  then obtain fs1 where m: "modify_chip_revision ?fs bin_name None None True = Inr fs1" ..
  with all obtain out1 where "fs1 = ?fs(bin_name \<mapsto> out1)" "length out1 = length ?src"
    "\<forall>i. i \<noteq> TARGET_OFFSET_MIN_REV \<and> i \<noteq> TARGET_OFFSET_MAX_REV \<longrightarrow> out1 ! i = ?src ! i"
    by blast
  with m have c1: "\<exists>out. modify_chip_revision ?fs bin_name None None True
             = Inr (?fs(bin_name \<mapsto> out)) \<and> length out = 40 \<and> out ! 16 = 0xE9"
    by (intro exI [of _ out1])
      (simp add: TARGET_OFFSET_MIN_REV_def TARGET_OFFSET_MAX_REV_def)
  from all obtain out2 where "write_truncated ?fs ''truncated.bin'' 10
      = Inr (?fs(''truncated.bin'' \<mapsto> out2))" "length out2 = min 10 (length ?src)"
    "\<forall>i < length out2. out2 ! i = ?src ! i"
    by blast
  then have c2: "\<exists>out. write_truncated ?fs ''truncated.bin'' 10
             = Inr (?fs(''truncated.bin'' \<mapsto> out)) \<and> length out = 10 \<and> out ! 3 = 0xE9"
    by (intro exI [of _ out2]) simp
  have "\<exists>fs'. invalid_chip_id_setup ?fs = Inr fs'"
    by (simp add: invalid_chip_id_setup_result [of ?fs ?src])
  then obtain fs3 where i: "invalid_chip_id_setup ?fs = Inr fs3" ..
  with all obtain out3 where "fs3 = ?fs(''random.bin'' \<mapsto> out3)"
    "length out3 = min 2000 (length ?src)" "out3 ! 13 = 0xFE"
    "\<forall>i < length out3. i \<noteq> 13 \<longrightarrow> out3 ! i = ?src ! i"
    by blast
  with i have c3: "\<exists>out. invalid_chip_id_setup ?fs
             = Inr (?fs(''random.bin'' \<mapsto> out))
         \<and> length out = 40 \<and> out ! 13 = 0xFE \<and> out ! 12 = 0xE9"
    by (intro exI [of _ out3]) simp
  from all obtain out4 where "anti_rollback_setup ?fs
      = Inr (?fs(anti_rollback_bin_name \<mapsto> out4))" "length out4 = max (length ?src) 37"
    "out4 ! 36 = 0" "\<forall>i < length ?src. i \<noteq> 36 \<longrightarrow> out4 ! i = ?src ! i"
    by blast
  then have c4: "\<exists>out. anti_rollback_setup ?fs
             = Inr (?fs(anti_rollback_bin_name \<mapsto> out))
         \<and> length out = 40 \<and> out ! 36 = 0 \<and> out ! 35 = 0xE9"
    by (intro exI [of _ out4]) simp
  from c1 c2 c3 c4 show ?thesis
    by (intro conjI)
qed

section \<open>Claims about the servers\<close>











section \<open>Running a scenario\<close>

lemma randint_5_15: "randint 5 15 raw = Inr (5 + int raw mod 11)"
  by (simp add: randint_def randrange_def randbelow_def)

lemma bindA_at:
  "bindA m f \<lparr>procs = P, trace = T, calls = n, thread1 = t\<rparr> =
     (case m \<lparr>procs = P, trace = T, calls = n, thread1 = t\<rparr> of
        (Inl e, w') \<Rightarrow> (Inl e, w') | (Inr v, w') \<Rightarrow> f v w')"
  by (simp add: bindA_def)

lemma returnA_at:
  "returnA v \<lparr>procs = P, trace = T, calls = n, thread1 = t\<rparr> =
     (Inr v, \<lparr>procs = P, trace = T, calls = n, thread1 = t\<rparr>)"
  by (simp add: returnA_def)

lemma raiseA_at:
  "raiseA e \<lparr>procs = P, trace = T, calls = n, thread1 = t\<rparr> =
     (Inl e, \<lparr>procs = P, trace = T, calls = n, thread1 = t\<rparr>)"
  by (simp add: raiseA_def)

lemma lift_at:
  "lift r \<lparr>procs = P, trace = T, calls = n, thread1 = t\<rparr> =
     (r, \<lparr>procs = P, trace = T, calls = n, thread1 = t\<rparr>)"
  by (simp add: lift_def)

lemma try_finally_at:
  "try_finally stmts cleanup \<lparr>procs = P, trace = T, calls = n, thread1 = t\<rparr> =
     (case stmts \<lparr>procs = P, trace = T, calls = n, thread1 = t\<rparr> of
        (r, w') \<Rightarrow>
          (case cleanup w' of
             (Inl e, w'') \<Rightarrow> (Inl e, w'')
           | (Inr _, w'') \<Rightarrow> (r, w'')))"
  by (simp add: try_finally_def)

lemma except_TIMEOUT_at:
  "except_TIMEOUT stmts handler \<lparr>procs = P, trace = T, calls = n, thread1 = t\<rparr> =
     (case stmts \<lparr>procs = P, trace = T, calls = n, thread1 = t\<rparr> of
        (Inl e, w') \<Rightarrow> if e = TIMEOUT then handler w' else (Inl e, w')
      | (Inr v, w') \<Rightarrow> (Inr v, w'))"
  by (simp add: except_TIMEOUT_def)

lemma external_at:
  "external env ev \<lparr>procs = P, trace = T, calls = n, thread1 = t\<rparr> =
     (case env n of
        Raises e \<Rightarrow> (Inl e, \<lparr>procs = P, trace = T, calls = n + 1, thread1 = t\<rparr>)
      | Returns s \<Rightarrow> (Inr s, \<lparr>procs = P, trace = T @ [ev], calls = n + 1, thread1 = t\<rparr>))"
  by (simp add: external_def split: outcome.splits)

lemma start_at:
  "start env h \<lparr>procs = P, trace = T, calls = n, thread1 = t\<rparr> =
     (case env n of
        Raises e \<Rightarrow> (Inl e, \<lparr>procs = P, trace = T, calls = n + 1, thread1 = t\<rparr>)
      | Returns s \<Rightarrow>
          (Inr (), \<lparr>procs = P[h := (fst (P ! h), Started)], trace = T @ [Start h],
                     calls = n + 1, thread1 = t\<rparr>))"
  by (simp add: start_def external_def set_pstate_def split: outcome.splits)

lemma terminate_at:
  "terminate h \<lparr>procs = P, trace = T, calls = n, thread1 = t\<rparr> =
     (if h < length P \<and> snd (P ! h) \<noteq> Initial
      then (Inr (), \<lparr>procs = P[h := (fst (P ! h), Stopped)], trace = T @ [Terminate h],
                     calls = n, thread1 = t\<rparr>)
      else (Inl AttributeError, \<lparr>procs = P, trace = T, calls = n, thread1 = t\<rparr>))"
  by (simp add: terminate_def set_pstate_def)

lemma Process_at:
  "Process tg \<lparr>procs = P, trace = T, calls = n, thread1 = t\<rparr> =
     (Inr (length P), \<lparr>procs = P @ [(tg, Initial)], trace = T, calls = n, thread1 = t\<rparr>)"
  by (simp add: Process_def)

lemma set_thread1_at:
  "set_thread1 h \<lparr>procs = P, trace = T, calls = n, thread1 = t\<rparr> =
     (Inr (), \<lparr>procs = P, trace = T, calls = n, thread1 = h\<rparr>)"
  by (simp add: set_thread1_def)

lemma get_thread1_at:
  "get_thread1 \<lparr>procs = P, trace = T, calls = n, thread1 = t\<rparr> =
     (Inr t, \<lparr>procs = P, trace = T, calls = n, thread1 = t\<rparr>)"
  by (simp add: get_thread1_def)

lemmas run_at =
  bindA_at returnA_at raiseA_at lift_at try_finally_at except_TIMEOUT_at external_at
  start_at terminate_at Process_at set_thread1_at get_thread1_at

lemmas call_defs =
  ignore_def dut_expect_def dut_write_def time_sleep_def hard_reset_def
  erase_partition_def get_host_ip4_by_dest_ip_def expect_ip_address_def
  restart_device_with_random_delay_def

lemma resumption_run:
  "test_examples_protocol_advanced_https_ota_example_ota_resumption
              (\<lambda>k. Returns (p k)) raw binary_path initial_world
   = (Inr (),
      \<lparr>procs = [(HttpsServer binary_path ''0.0.0.0'' 8001, Stopped),
                (HttpsServer binary_path ''0.0.0.0'' 8001, Stopped)],
       trace = [ErasePartition NVS_PARTITION,
          Start 0,
          Expect ''Loaded app from partition at offset'' 30,
          Expect ipv4_pattern 30,
          Expect ''Starting Advanced OTA example'' 30,
          HostLookup (p 3),
          Write (https_url (p 5) 8001 bin_name),
          Expect ''Starting OTA...'' 60,
          Sleep (5 + int raw mod 11),
          HardReset,
          Terminate 0,
          Start 1,
          Expect ''Loaded app from partition at offset'' 180,
          Expect ipv4_pattern 30,
          Expect ''Starting Advanced OTA example'' 30,
          HostLookup (p 12),
          Write (https_url (p 14) 8001 bin_name),
          Expect ''Starting OTA...'' 60,
          Expect ''upgrade successful. Rebooting ...'' 150,
          Terminate 1],
       calls = 18, thread1 = 1\<rparr>)"
proof -
  have n: "Suc (Suc (Suc 0)) = 3" "Suc (Suc (Suc (Suc (Suc 0)))) = 5"
    "Suc (Suc (Suc (Suc (Suc (Suc (Suc (Suc (Suc (Suc (Suc (Suc 0))))))))))) = 12"
    "Suc (Suc (Suc (Suc (Suc (Suc (Suc (Suc (Suc (Suc (Suc (Suc (Suc (Suc 0))))))))))))) = 14"
    by simp_all
  show ?thesis
    by (simp add: test_examples_protocol_advanced_https_ota_example_ota_resumption_def
        initial_world_def call_defs run_at randint_5_15 n)
qed

lemma randint_5_15_range: "range (randint 5 15) = Inr ` {5..15}"
proof -
  have f: "randint 5 15 = (\<lambda>raw. Inr (5 + int raw mod 11))"
    by (rule ext) (rule randint_5_15)
  have "range (\<lambda>raw. 5 + int raw mod 11) = {5..15}"
  proof (rule set_eqI)
    fix d :: int
    show "d \<in> range (\<lambda>raw. 5 + int raw mod 11) \<longleftrightarrow> d \<in> {5..15}"
    proof
      assume "d \<in> range (\<lambda>raw. 5 + int raw mod 11)"
      then obtain raw where "d = 5 + int raw mod 11"
        by blast
      then show "d \<in> {5..15}"
        by simp
    next
      assume "d \<in> {5..15}"
      then have "d = 5 + int (nat (d - 5)) mod 11"
        by simp
      then show "d \<in> range (\<lambda>raw. 5 + int raw mod 11)"
        by (rule range_eqI)
    qed
  qed
  then have "Inr ` range (\<lambda>raw. 5 + int raw mod 11) = (Inr ` {5..15} :: (exn + int) set)"
    by simp
  then show ?thesis
    unfolding f by (simp add: image_image)
qed

text \<open>
  C9. As stated the claim fails in its last part: the scenario does not expect the
  success marker "as a resumption rather than a restarted transfer". After the reset
  it writes the same request line and expects exactly the markers it expected of the
  first download, which started from an erased \<^verbatim>\<open>nvs\<close> partition, followed by
  \<^verbatim>\<open>upgrade successful. Rebooting ...\<close>; no expectation tells a resumed transfer from
  one that starts again from the first byte.
\<close>

theorem resumption_scenario_expects_fresh_download_markers:
  "expected_patterns (drop 11 (trace (snd
      (test_examples_protocol_advanced_https_ota_example_ota_resumption
         (\<lambda>k. Returns ''192.168.1.2'') 0 ''build'' initial_world))))
   = expected_patterns (take 8 (trace (snd
      (test_examples_protocol_advanced_https_ota_example_ota_resumption
         (\<lambda>k. Returns ''192.168.1.2'') 0 ''build'' initial_world))))
     @ [''upgrade successful. Rebooting ...'']
   \<and> expected_patterns (drop 11 (trace (snd
      (test_examples_protocol_advanced_https_ota_example_ota_resumption
         (\<lambda>k. Returns ''192.168.1.2'') 0 ''build'' initial_world))))
   = [''Loaded app from partition at offset'', ipv4_pattern,
      ''Starting Advanced OTA example'', ''Starting OTA...'',
      ''upgrade successful. Rebooting ...'']
   \<and> written_lines (drop 11 (trace (snd
      (test_examples_protocol_advanced_https_ota_example_ota_resumption
         (\<lambda>k. Returns ''192.168.1.2'') 0 ''build'' initial_world))))
   = written_lines (take 8 (trace (snd
      (test_examples_protocol_advanced_https_ota_example_ota_resumption
         (\<lambda>k. Returns ''192.168.1.2'') 0 ''build'' initial_world))))
   \<and> take 3 (drop 8 (trace (snd
      (test_examples_protocol_advanced_https_ota_example_ota_resumption
         (\<lambda>k. Returns ''192.168.1.2'') 0 ''build'' initial_world))))
   = [Sleep 5, HardReset, Terminate 0]"
  by (simp add: resumption_run [of "\<lambda>k. ''192.168.1.2''" 0 "''build''"])

text \<open>
  C9, amended. The interrupted-and-resumed scenario. The delay is the result of
  \<^verbatim>\<open>random.randint(5, 15)\<close>: for the generator's number \<open>raw\<close> it is
  \<open>5 + raw mod 11\<close>, a whole number of seconds between 5 and 15, and every value from
  5 to 15 is the delay for some number of the generator. When every call returns, the
  scenario passes and performs exactly these steps: after the marker
  \<^verbatim>\<open>Starting OTA...\<close> is matched it sleeps for that delay, hard-resets the device,
  terminates the first server process, starts a second process with the same target
  and address, drives the device again with the same request line and markers, and
  last expects \<^verbatim>\<open>upgrade successful. Rebooting ...\<close>; both processes are stopped at
  the end.
\<close>

theorem resumption_scenario_trace:
  "randint 5 15 raw = Inr (5 + int raw mod 11)
     \<and> 5 \<le> 5 + int raw mod 11 \<and> 5 + int raw mod 11 \<le> 15
     \<and> range (randint 5 15) = Inr ` {5..15}
     \<and> fst (test_examples_protocol_advanced_https_ota_example_ota_resumption
              (\<lambda>k. Returns (p k)) raw binary_path initial_world) = Inr ()
     \<and> trace (snd (test_examples_protocol_advanced_https_ota_example_ota_resumption
              (\<lambda>k. Returns (p k)) raw binary_path initial_world))
       = [ErasePartition NVS_PARTITION,
          Start 0,
          Expect ''Loaded app from partition at offset'' 30,
          Expect ipv4_pattern 30,
          Expect ''Starting Advanced OTA example'' 30,
          HostLookup (p 3),
          Write (https_url (p 5) 8001 bin_name),
          Expect ''Starting OTA...'' 60,
          Sleep (5 + int raw mod 11),
          HardReset,
          Terminate 0,
          Start 1,
          Expect ''Loaded app from partition at offset'' 180,
          Expect ipv4_pattern 30,
          Expect ''Starting Advanced OTA example'' 30,
          HostLookup (p 12),
          Write (https_url (p 14) 8001 bin_name),
          Expect ''Starting OTA...'' 60,
          Expect ''upgrade successful. Rebooting ...'' 150,
          Terminate 1]
     \<and> procs (snd (test_examples_protocol_advanced_https_ota_example_ota_resumption
              (\<lambda>k. Returns (p k)) raw binary_path initial_world))
       = [(HttpsServer binary_path ''0.0.0.0'' 8001, Stopped),
          (HttpsServer binary_path ''0.0.0.0'' 8001, Stopped)]"
proof -
  have b: "(5::int) \<le> 5 + int raw mod 11" "5 + int raw mod 11 \<le> 15"
    by simp_all
  show ?thesis
    by (intro conjI randint_5_15 b randint_5_15_range) (simp_all add: resumption_run)
qed

section \<open>Teardown of the scenarios\<close>

lemma procs_external: "procs (snd (external env ev w)) = procs w"
  by (simp add: external_def split: outcome.splits)

lemma procs_returnA: "procs (snd (returnA v w)) = procs w"
  by (simp add: returnA_def)

lemma procs_raiseA: "procs (snd (raiseA e w)) = procs w"
  by (simp add: raiseA_def)

lemma procs_bindA:
  assumes "\<And>w. procs (snd (m w)) = procs w"
    and "\<And>v w. procs (snd (f v w)) = procs w"
  shows "procs (snd (bindA m f w)) = procs w"
proof (cases "m w")
  case (Pair r w')
  from assms(1) [of w] Pair have "procs w' = procs w"
    by simp
  with Pair assms(2) show ?thesis
    by (cases r) (simp_all add: bindA_def)
qed

lemma procs_except_TIMEOUT:
  assumes "\<And>w. procs (snd (m w)) = procs w"
    and "\<And>w. procs (snd (h w)) = procs w"
  shows "procs (snd (except_TIMEOUT m h w)) = procs w"
proof (cases "m w")
  case (Pair r w')
  from assms(1) [of w] Pair have "procs w' = procs w"
    by simp
  with Pair assms(2) show ?thesis
    by (cases r) (simp_all add: except_TIMEOUT_def)
qed

lemma procs_repeat:
  assumes "\<And>w. procs (snd (m w)) = procs w"
  shows "procs (snd (repeat n m w)) = procs w"
proof (induction n arbitrary: w)
  case 0
  show ?case by (simp add: procs_returnA)
next
  case (Suc n)
  show ?case
    by (simp add: procs_bindA assms Suc.IH)
qed

lemma procs_device_calls:
  "procs (snd (dut_expect env pat t w)) = procs w"
  "procs (snd (dut_write env s w)) = procs w"
  "procs (snd (get_host_ip4_by_dest_ip env ip w)) = procs w"
  "procs (snd (expect_ip_address env w)) = procs w"
  "procs (snd (ignore (dut_expect env pat t) w)) = procs w"
  by (simp_all add: dut_expect_def dut_write_def get_host_ip4_by_dest_ip_def
      expect_ip_address_def ignore_def procs_bindA procs_external procs_returnA
      procs_except_TIMEOUT procs_raiseA)

lemma procs_iteration:
  "procs (snd (repeat 3
           (bindA (dut_expect env ''Loaded app from partition at offset'' 30) (\<lambda>_.
            bindA (expect_ip_address env) (\<lambda>ip_address.
            bindA (dut_expect env ''Starting Advanced OTA example'' 30) (\<lambda>_.
            bindA (get_host_ip4_by_dest_ip env ip_address) (\<lambda>host_ip.
            block
             [dut_write env (https_url host_ip 8001 bin_name),
              ignore (dut_expect env ''upgrade successful. Rebooting ...'' 150)]))))) w))
   = procs w"
  by (intro procs_repeat procs_bindA procs_device_calls)
    (simp add: procs_bindA procs_device_calls procs_returnA)

lemma single_server_scenario_stops_its_server:
  "running (snd (test_examples_protocol_advanced_https_ota_example env binary_path
      initial_world)) = []"
proof -
  let ?t = "HttpsServer binary_path ''0.0.0.0'' 8001"
  let ?loop = "repeat 3
           (bindA (dut_expect env ''Loaded app from partition at offset'' 30) (\<lambda>_.
            bindA (expect_ip_address env) (\<lambda>ip_address.
            bindA (dut_expect env ''Starting Advanced OTA example'' 30) (\<lambda>_.
            bindA (get_host_ip4_by_dest_ip env ip_address) (\<lambda>host_ip.
            block
             [dut_write env (https_url host_ip 8001 bin_name),
              ignore (dut_expect env ''upgrade successful. Rebooting ...'' 150)])))))"
  show ?thesis
  proof (cases "env 0")
    case (Raises e)
    then show ?thesis
      by (simp add: test_examples_protocol_advanced_https_ota_example_def
          initial_world_def run_at running_def)
  next
    case (Returns s)
    let ?w = "\<lparr>procs = [(?t, Started)], trace = [Start 0], calls = 1, thread1 = 0\<rparr>"
    obtain r w' where loop: "?loop ?w = (r, w')"
      by (cases "?loop ?w")
    from procs_iteration [of env ?w] loop have p: "procs w' = [(?t, Started)]"
      by simp
    then have t: "terminate 0 w'
        = (Inr (), (set_pstate 0 Stopped w')\<lparr>trace := trace w' @ [Terminate 0]\<rparr>)"
      by (simp add: terminate_def)
    let ?w'' = "(set_pstate 0 Stopped w')\<lparr>trace := trace w' @ [Terminate 0]\<rparr>"
    have pw: "procs ?w'' = [(?t, Stopped)]"
      using p by (simp add: set_pstate_def)
    have tf: "try_finally ?loop (terminate 0) ?w = (r, ?w'')"
      unfolding try_finally_def loop by (simp add: t)
    have stopped: "running ?w'' = []"
      unfolding running_def pw by simp
    have eq: "test_examples_protocol_advanced_https_ota_example env binary_path
        initial_world
      = bindA (try_finally ?loop (terminate 0)) (\<lambda>_. returnA ()) ?w"
      using Returns
      by (simp add: test_examples_protocol_advanced_https_ota_example_def
          initial_world_def bindA_at Process_at start_at)
    have fin: "snd (bindA (try_finally ?loop (terminate 0)) (\<lambda>_. returnA ()) ?w) = ?w''"
      unfolding bindA_def tf by (cases r) (simp_all add: returnA_def)
    show ?thesis
      unfolding eq fin by (rule stopped)
  qed
qed

lemma hoareI:
  "(\<And>w. P w \<Longrightarrow> (case m w of (Inl e, w') \<Rightarrow> E w' | (Inr v, w') \<Rightarrow> Q v w')) \<Longrightarrow> hoare P m Q E"
  by (simp add: hoare_def)

lemma hoareD:
  "hoare P m Q E \<Longrightarrow> P w \<Longrightarrow> (case m w of (Inl e, w') \<Rightarrow> E w' | (Inr v, w') \<Rightarrow> Q v w')"
  by (simp add: hoare_def)

lemma hoare_bindA:
  assumes m: "hoare P m Q E" and f: "\<And>v. hoare (Q v) (f v) R E"
  shows "hoare P (bindA m f) R E"
proof (rule hoareI)
  fix w assume P: "P w"
  obtain r w' where mw: "m w = (r, w')"
    by (cases "m w")
  show "case bindA m f w of (Inl e, w') \<Rightarrow> E w' | (Inr v, w') \<Rightarrow> R v w'"
  proof (cases r)
    case (Inl e)
    with hoareD [OF m P] mw show ?thesis
      by (simp add: bindA_def)
  next
    case (Inr v)
    with hoareD [OF m P] mw have "Q v w'"
      by simp
    from hoareD [OF f this] Inr mw show ?thesis
      by (simp add: bindA_def)
  qed
qed

lemma hoare_weaken:
  assumes "hoare P' m Q' E'"
    and "\<And>w. P w \<Longrightarrow> P' w" and "\<And>v w. Q' v w \<Longrightarrow> Q v w" and "\<And>w. E' w \<Longrightarrow> E w"
  shows "hoare P m Q E"
proof (rule hoareI)
  fix w assume "P w"
  then have "P' w" by (rule assms(2))
  from hoareD [OF assms(1) this] assms(3,4)
  show "case m w of (Inl e, w') \<Rightarrow> E w' | (Inr v, w') \<Rightarrow> Q v w'"
    by (auto split: prod.splits sum.splits)
qed

lemma hoare_try_finally:
  assumes b: "hoare P stmts (\<lambda>_. F) F" and c: "hoare F cleanup (\<lambda>_. R) R"
  shows "hoare P (try_finally stmts cleanup) (\<lambda>_. R) R"
proof (rule hoareI)
  fix w assume P: "P w"
  obtain r w' where bw: "stmts w = (r, w')"
    by (cases "stmts w")
  with hoareD [OF b P] have F: "F w'"
    by (cases r) simp_all
  obtain r' w'' where cw: "cleanup w' = (r', w'')"
    by (cases "cleanup w'")
  with hoareD [OF c F] have R: "R w''"
    by (cases r') simp_all
  from bw cw R show "case try_finally stmts cleanup w of
      (Inl e, w') \<Rightarrow> R w' | (Inr v, w') \<Rightarrow> R w'"
    by (cases r; cases r') (simp_all add: try_finally_def)
qed

lemma hoare_except_TIMEOUT:
  assumes "hoare P stmts Q E" and "hoare E handler Q E"
  shows "hoare P (except_TIMEOUT stmts handler) Q E"
proof (rule hoareI)
  fix w assume P: "P w"
  obtain r w' where bw: "stmts w = (r, w')"
    by (cases "stmts w")
  show "case except_TIMEOUT stmts handler w of (Inl e, w') \<Rightarrow> E w' | (Inr v, w') \<Rightarrow> Q v w'"
  proof (cases r)
    case (Inl e)
    with hoareD [OF assms(1) P] bw have "E w'"
      by simp
    from hoareD [OF assms(2) this] this Inl bw show ?thesis
      by (simp add: except_TIMEOUT_def)
  next
    case (Inr v)
    with hoareD [OF assms(1) P] bw show ?thesis
      by (simp add: except_TIMEOUT_def)
  qed
qed

lemma hoare_returnA: "hoare P (returnA v) (\<lambda>_. P) E"
  by (simp add: hoare_def returnA_def)

lemma hoare_raiseA: "hoare P (raiseA e) Q P"
  by (simp add: hoare_def raiseA_def)

lemma hoare_lift: "hoare P (lift r) (\<lambda>_. P) P"
  by (cases r) (simp_all add: hoare_def lift_def)


lemma running_external: "running (snd (external env ev w)) = running w"
  by (simp add: running_def external_def split: outcome.splits)

lemma thread1_external: "thread1 (snd (external env ev w)) = thread1 w"
  by (simp add: external_def split: outcome.splits)

lemma hoare_external_only:
  "hoare only_thread1_running (external env ev) (\<lambda>_. only_thread1_running)
     only_thread1_running"
proof (rule hoareI)
  fix w assume "only_thread1_running w"
  then have "only_thread1_running (snd (external env ev w))"
    by (simp add: only_thread1_running_def running_external thread1_external)
  then show "case external env ev w of
      (Inl e, w') \<Rightarrow> only_thread1_running w' | (Inr v, w') \<Rightarrow> only_thread1_running w'"
    by (auto split: prod.splits sum.splits)
qed

lemma hoare_external_none:
  "hoare none_running (external env ev) (\<lambda>_. none_running) none_running"
proof (rule hoareI)
  fix w assume "none_running w"
  then have "none_running (snd (external env ev w))"
    by (simp add: none_running_def running_external)
  then show "case external env ev w of
      (Inl e, w') \<Rightarrow> none_running w' | (Inr v, w') \<Rightarrow> none_running w'"
    by (auto split: prod.splits sum.splits)
qed

lemma none_running_only: "none_running w \<Longrightarrow> only_thread1_running w"
  by (simp add: none_running_def only_thread1_running_def)

lemma hoare_bindA_inv:
  "hoare P m (\<lambda>_. P) P \<Longrightarrow> (\<And>v. hoare P (f v) (\<lambda>_. P) P)
   \<Longrightarrow> hoare P (bindA m f) (\<lambda>_. P) P"
  by (rule hoare_bindA)

lemma hoare_ignore: "hoare P m (\<lambda>_. P) P \<Longrightarrow> hoare P (ignore m) (\<lambda>_. P) P"
  unfolding ignore_def by (rule hoare_bindA_inv) (simp_all add: hoare_returnA)

lemma hoare_block:
  "(\<And>m. m \<in> set ms \<Longrightarrow> hoare P m (\<lambda>_. P) P) \<Longrightarrow> hoare P (block ms) (\<lambda>_. P) P"
proof (induction ms)
  case Nil
  show ?case by (simp add: hoare_returnA)
next
  case (Cons m ms)
  have "hoare P m (\<lambda>_. P) P"
    by (rule Cons.prems) simp
  moreover have "hoare P (block ms) (\<lambda>_. P) P"
    by (rule Cons.IH) (simp add: Cons.prems)
  ultimately show ?case
    by (simp add: hoare_bindA_inv)
qed

lemma hoare_device_only:
  "hoare only_thread1_running (dut_expect env pat t) (\<lambda>_. only_thread1_running)
     only_thread1_running"
  "hoare only_thread1_running (ignore (dut_expect env pat t)) (\<lambda>_. only_thread1_running)
     only_thread1_running"
  "hoare only_thread1_running (dut_write env s) (\<lambda>_. only_thread1_running)
     only_thread1_running"
  "hoare only_thread1_running (get_host_ip4_by_dest_ip env ip) (\<lambda>_. only_thread1_running)
     only_thread1_running"
  "hoare only_thread1_running (expect_ip_address env) (\<lambda>_. only_thread1_running)
     only_thread1_running"
  "hoare only_thread1_running (time_sleep env secs) (\<lambda>_. only_thread1_running)
     only_thread1_running"
  "hoare only_thread1_running (hard_reset env) (\<lambda>_. only_thread1_running)
     only_thread1_running"
  unfolding dut_expect_def dut_write_def get_host_ip4_by_dest_ip_def expect_ip_address_def
    time_sleep_def hard_reset_def
  by (intro hoare_ignore hoare_external_only hoare_except_TIMEOUT hoare_raiseA)+

lemma hoare_restart_device:
  "hoare only_thread1_running (restart_device_with_random_delay env raw a b)
     (\<lambda>_. only_thread1_running) only_thread1_running"
  unfolding restart_device_with_random_delay_def
  by (intro hoare_bindA_inv hoare_lift hoare_block) (auto simp: hoare_device_only)


lemma mem_running:
  "h \<in> set (running w) \<longleftrightarrow> h < length (procs w) \<and> snd (procs w ! h) = Started"
  by (auto simp: running_def)

lemma none_running_iff:
  "none_running w \<longleftrightarrow> (\<forall>h < length (procs w). snd (procs w ! h) \<noteq> Started)"
  by (auto simp: none_running_def running_def filter_empty_conv)

lemma only_thread1_running_iff:
  "only_thread1_running w \<longleftrightarrow>
     (\<forall>h < length (procs w). snd (procs w ! h) = Started \<longrightarrow> h = thread1 w)"
  by (auto simp: only_thread1_running_def mem_running)

lemma hoare_terminate_thread1:
  "hoare only_thread1_running (bindA get_thread1 terminate) (\<lambda>_. none_running) none_running"
proof (rule hoareI)
  fix w assume inv: "only_thread1_running w"
  show "case bindA get_thread1 terminate w of
      (Inl e, w') \<Rightarrow> none_running w' | (Inr v, w') \<Rightarrow> none_running w'"
  proof (cases "thread1 w < length (procs w) \<and> snd (procs w ! thread1 w) \<noteq> Initial")
    case True
    have "none_running ((set_pstate (thread1 w) Stopped w)
        \<lparr>trace := trace w @ [Terminate (thread1 w)]\<rparr>)"
      using inv True
      by (auto simp: none_running_iff only_thread1_running_iff set_pstate_def nth_list_update)
    with True show ?thesis
      by (simp add: bindA_def get_thread1_def terminate_def)
  next
    case False
    with inv have "none_running w"
      by (auto simp: none_running_iff only_thread1_running_iff)
    with False show ?thesis
      by (auto simp: bindA_def get_thread1_def terminate_def)
  qed
qed

lemma hoare_new_thread1:
  "hoare none_running (bindA (Process tg) set_thread1) (\<lambda>_. none_running) none_running"
  by (rule hoareI)
    (auto simp: bindA_def Process_def set_thread1_def none_running_iff nth_append)

lemma hoare_start_thread1:
  "hoare none_running (bindA get_thread1 (start env)) (\<lambda>_. only_thread1_running)
     none_running"
proof (rule hoareI)
  fix w assume q: "none_running w"
  show "case bindA get_thread1 (start env) w of
      (Inl e, w') \<Rightarrow> none_running w' | (Inr v, w') \<Rightarrow> only_thread1_running w'"
  proof (cases "env (calls w)")
    case (Raises e)
    with q show ?thesis
      by (simp add: bindA_def get_thread1_def start_def external_def none_running_iff)
  next
    case (Returns s)
    have "h = thread1 w"
      if "h < length (procs w)"
        and "snd ((procs w)[thread1 w := (fst (procs w ! thread1 w), Started)] ! h) = Started"
      for h
    proof (rule ccontr)
      assume "h \<noteq> thread1 w"
      with that(2) have "snd (procs w ! h) = Started"
        by simp
      with q that(1) show False
        by (simp add: none_running_iff)
    qed
    with Returns show ?thesis
      by (simp add: bindA_def get_thread1_def start_def external_def
          only_thread1_running_iff set_pstate_def)
  qed
qed

lemma hoare_block_cons:
  "hoare P m (\<lambda>_. Q) E \<Longrightarrow> hoare Q (block ms) (\<lambda>_. R) E
   \<Longrightarrow> hoare P (block (m # ms)) (\<lambda>_. R) E"
  by (simp add: hoare_bindA)

lemma resumption_restart:
  "hoare only_thread1_running
     (block
       [dut_write env url,
        ignore (dut_expect env ''Starting OTA...'' 60),
        restart_device_with_random_delay env raw 5 15,
        bindA get_thread1 terminate,
        bindA (Process tg) set_thread1,
        bindA get_thread1 (start env),
        ignore (dut_expect env ''Loaded app from partition at offset'' 180),
        tail])
     (\<lambda>_. only_thread1_running) only_thread1_running"
  if "hoare only_thread1_running tail (\<lambda>_. only_thread1_running) only_thread1_running"
proof -
  let ?I = only_thread1_running
  have t: "hoare ?I (bindA get_thread1 terminate) (\<lambda>_. none_running) ?I"
    by (rule hoare_weaken [OF hoare_terminate_thread1]) (simp_all add: none_running_only)
  have n: "hoare none_running (bindA (Process tg) set_thread1) (\<lambda>_. none_running) ?I"
    by (rule hoare_weaken [OF hoare_new_thread1]) (simp_all add: none_running_only)
  have s: "hoare none_running (bindA get_thread1 (start env)) (\<lambda>_. ?I) ?I"
    by (rule hoare_weaken [OF hoare_start_thread1]) (simp_all add: none_running_only)
  have rest: "hoare ?I
      (block [ignore (dut_expect env ''Loaded app from partition at offset'' 180), tail])
      (\<lambda>_. ?I) ?I"
    by (rule hoare_block) (auto simp: hoare_device_only that)
  show ?thesis
    by (intro hoare_block_cons [where Q = ?I and m = "dut_write env url"]
        hoare_block_cons [where Q = ?I and m = "ignore (dut_expect env ''Starting OTA...'' 60)"]
        hoare_block_cons [where Q = ?I and m = "restart_device_with_random_delay env raw 5 15"]
        hoare_block_cons [where Q = none_running and m = "bindA get_thread1 terminate"]
        hoare_block_cons [where Q = none_running and m = "bindA (Process tg) set_thread1"]
        hoare_block_cons [where Q = ?I and m = "bindA get_thread1 (start env)"]
        hoare_device_only hoare_restart_device t n s rest)
qed


lemma resumption_scenario_hoare:
  "hoare none_running
     (test_examples_protocol_advanced_https_ota_example_ota_resumption env raw binary_path)
     (\<lambda>_. none_running) none_running"
  unfolding test_examples_protocol_advanced_https_ota_example_ota_resumption_def
  apply (rule hoare_block_cons [where Q = none_running])
   apply (simp add: erase_partition_def hoare_ignore hoare_external_none)
  apply (rule hoare_block_cons [where Q = none_running])
   apply (rule hoare_new_thread1)
  apply (rule hoare_block_cons [where Q = only_thread1_running])
   apply (rule hoare_start_thread1)
  apply (rule hoare_block_cons [where Q = none_running])
   apply (rule hoare_try_finally [where F = only_thread1_running])
    apply (intro hoare_bindA_inv hoare_device_only resumption_restart)
    apply (rule hoare_block)
    apply (auto simp: hoare_device_only)[1]
   apply (rule hoare_terminate_thread1)
  apply (simp add: hoare_returnA)
  done

lemma resumption_scenario_stops_its_servers:
  "running (snd (test_examples_protocol_advanced_https_ota_example_ota_resumption env raw
      binary_path initial_world)) = []"
proof -
  have "none_running initial_world"
    by (simp add: none_running_def running_def initial_world_def)
  from hoareD [OF resumption_scenario_hoare this, of env raw binary_path]
  have "none_running (snd (test_examples_protocol_advanced_https_ota_example_ota_resumption
      env raw binary_path initial_world))"
    by (auto split: prod.splits sum.splits)
  then show ?thesis
    by (simp add: none_running_def)
qed

text \<open>
  C2. Teardown on every exit path. The redirect scenario starts its three server
  processes and sleeps one second before it enters the \<^verbatim>\<open>try\<close> block whose
  \<^verbatim>\<open>finally\<close> terminates them. When starting the second process fails in the
  operating system, the scenario ends with that error and the first server is left
  running; when the one-second sleep is interrupted, all three are left running. The
  scenario with one server and the interrupted-and-resumed scenario stop every server
  they started, whatever the environment does (\<open>single_server_scenario_stops_its_server\<close>,
  \<open>resumption_scenario_stops_its_servers\<close>).
\<close>

theorem redirect_scenario_leaves_server_running:
  "fst (test_examples_protocol_advanced_https_ota_example_redirect_url
          (\<lambda>k. if k = 5 then Raises OSError else Returns ''192.168.1.2'')
          binary_path initial_world) = Inl OSError
   \<and> running (snd (test_examples_protocol_advanced_https_ota_example_redirect_url
          (\<lambda>k. if k = 5 then Raises OSError else Returns ''192.168.1.2'')
          binary_path initial_world)) = [0]
   \<and> procs (snd (test_examples_protocol_advanced_https_ota_example_redirect_url
          (\<lambda>k. if k = 5 then Raises OSError else Returns ''192.168.1.2'')
          binary_path initial_world))
       = [(HttpsServer binary_path ''192.168.1.2'' 8001, Started),
          (RedirectServer binary_path ''192.168.1.2'' 8081 8082, Initial),
          (RedirectServer binary_path ''192.168.1.2'' 8082 8001, Initial)]
   \<and> fst (test_examples_protocol_advanced_https_ota_example_redirect_url
          (\<lambda>k. if k = 7 then Raises KeyboardInterrupt else Returns ''192.168.1.2'')
          binary_path initial_world) = Inl KeyboardInterrupt
   \<and> running (snd (test_examples_protocol_advanced_https_ota_example_redirect_url
          (\<lambda>k. if k = 7 then Raises KeyboardInterrupt else Returns ''192.168.1.2'')
          binary_path initial_world)) = [0, 1, 2]"
  by (simp add: test_examples_protocol_advanced_https_ota_example_redirect_url_def
      initial_world_def call_defs run_at running_def upt_rec)

end
